theory Spec2Isabelle
  imports Complex_Main "HOL-Library.Word"
begin

section \<open>Conventions\<close>

text \<open>
  Conventions of the embedding.
  \<^item> \<open>uint32_t\<close> is \<open>32 word\<close>: \<open>+\<close>, \<open>-\<close> and \<open>*\<close> wrap around and \<open><\<close> is the
    unsigned comparison, as in C.
  \<^item> A \<open>float\<close> that the code only stores, copies and compares is the real number it
    denotes, and so are the simulated sample and the values derived from one sample, which
    are computed without rounding. The running average is the one quantity that float
    arithmetic carries from one call to the next; it is a \<open>float_value\<close>, with the infinities
    and NaN, and every operation on it rounds as IEEE 754 single precision does.
  \<^item> A pointer that may be \<open>NULL\<close> is an \<open>option\<close>; a C string is a \<open>string\<close> (a list of
    bytes, its end standing for the terminating NUL).
  \<^item> A name that two structs or the two static \<open>private_data\<close> variables share, or that is
    taken in Isabelle, is renamed: \<open>data_type\<close>, \<open>data_value\<close>, \<open>data_unit\<close> in \<open>SensorData\<close>;
    \<open>sensor_type\<close>, \<open>sensor_id\<close>, \<open>sensor_name\<close>, \<open>sensor_sample_count\<close> in \<open>Sensor\<close>;
    \<open>logger_config\<close>, \<open>open_log_file\<close> in \<open>LoggerPrivate\<close>; \<open>logger_private_data\<close> for the
    static pointer of logger.c.
  \<^item> What the code reads from its environment (the clock, \<open>rand\<close>, whether \<open>malloc\<close> and
    \<open>fopen\<close> succeed) is an input of the model.
\<close>

type_synonym uint32_t = "32 word"

section \<open>Single-precision arithmetic\<close>

text \<open>
  The value of a C \<open>float\<close> expression: a finite number, an infinity or NaN. The two zeros
  are one value; the only division of the program divides by a converted unsigned count,
  which is never \<open>-0\<close>. An expression of type \<open>float\<close> is evaluated in single precision
  (\<open>FLT_EVAL_METHOD\<close> 0), rounding to nearest, ties to even: \<open>float_exponent\<close> finds the binade
  of a real number between the smallest normal exponent \<open>-126\<close> and the largest one \<open>127\<close>,
  \<open>float_round\<close> rounds to a multiple of the unit in the last place of that binade (24
  significant bits, so subnormal numbers are multiples of \<open>2^-149\<close>), and \<open>to_float\<close> gives
  an infinity when the rounded value is beyond the largest finite float.
\<close>

datatype float_value = Finite real | PlusInfinity | MinusInfinity | NotANumber

definition round_half_even :: "real \<Rightarrow> int" where
  \<comment> \<open>the nearest integer, the even one of two that are equally near\<close>
  "round_half_even y =
     (let n = \<lfloor>y\<rfloor>; r = y - of_int n
      in if r < 1 / 2 then n else if 1 / 2 < r then n + 1 else if even n then n else n + 1)"

definition float_exponent :: "real \<Rightarrow> int" where
  "float_exponent x =
     (case find (\<lambda>e. \<bar>x\<bar> < 2 powi (e + 1)) [- 126..126] of Some e \<Rightarrow> e | None \<Rightarrow> 127)"

definition float_round :: "real \<Rightarrow> real" where
  "float_round x =
     (let ulp = 2 powi (float_exponent x - 23)
      in of_int (round_half_even (x / ulp)) * ulp)"

definition to_float :: "real \<Rightarrow> float_value" where
  "to_float x =
     (let y = float_round x
      in if 2 powi 128 \<le> y then PlusInfinity
         else if y \<le> - (2 powi 128) then MinusInfinity
         else Finite y)"

definition infinity_of :: "real \<Rightarrow> float_value" where
  \<comment> \<open>the infinity with the sign of \<open>s\<close>\<close>
  "infinity_of s = (if s < 0 then MinusInfinity else PlusInfinity)"

fun float_mul :: "float_value \<Rightarrow> float_value \<Rightarrow> float_value" where
  "float_mul (Finite a) (Finite b) = to_float (a * b)"
| "float_mul NotANumber y = NotANumber"
| "float_mul x NotANumber = NotANumber"
| "float_mul (Finite a) PlusInfinity = (if a = 0 then NotANumber else infinity_of a)"
| "float_mul (Finite a) MinusInfinity = (if a = 0 then NotANumber else infinity_of (- a))"
| "float_mul PlusInfinity (Finite b) = (if b = 0 then NotANumber else infinity_of b)"
| "float_mul MinusInfinity (Finite b) = (if b = 0 then NotANumber else infinity_of (- b))"
| "float_mul PlusInfinity PlusInfinity = PlusInfinity"
| "float_mul PlusInfinity MinusInfinity = MinusInfinity"
| "float_mul MinusInfinity PlusInfinity = MinusInfinity"
| "float_mul MinusInfinity MinusInfinity = PlusInfinity"

fun float_add :: "float_value \<Rightarrow> float_value \<Rightarrow> float_value" where
  "float_add (Finite a) (Finite b) = to_float (a + b)"
| "float_add NotANumber y = NotANumber"
| "float_add x NotANumber = NotANumber"
| "float_add PlusInfinity MinusInfinity = NotANumber"
| "float_add MinusInfinity PlusInfinity = NotANumber"
| "float_add PlusInfinity y = PlusInfinity"
| "float_add MinusInfinity y = MinusInfinity"
| "float_add x PlusInfinity = PlusInfinity"
| "float_add x MinusInfinity = MinusInfinity"

fun float_div :: "float_value \<Rightarrow> float_value \<Rightarrow> float_value" where
  "float_div (Finite a) (Finite b) =
     (if b = 0 then (if a = 0 then NotANumber else infinity_of a) else to_float (a / b))"
| "float_div NotANumber y = NotANumber"
| "float_div x NotANumber = NotANumber"
| "float_div (Finite a) y = Finite 0"
| "float_div PlusInfinity (Finite b) = infinity_of b"
| "float_div MinusInfinity (Finite b) = (if b < 0 then PlusInfinity else MinusInfinity)"
| "float_div PlusInfinity PlusInfinity = NotANumber"
| "float_div PlusInfinity MinusInfinity = NotANumber"
| "float_div MinusInfinity PlusInfinity = NotANumber"
| "float_div MinusInfinity MinusInfinity = NotANumber"

definition float_of_uint32 :: "uint32_t \<Rightarrow> float_value" where
  \<comment> \<open>the conversion of an unsigned operand to \<open>float\<close>; it rounds above \<open>2^24\<close>\<close>
  "float_of_uint32 n = to_float (real (unat n))"

section \<open>Data model of sensor.h and temperature\_sensor.h\<close>

datatype SensorError =
    SENSOR_ERROR_NONE
  | SENSOR_ERROR_INVALID_PARAM
  | SENSOR_ERROR_INIT_FAILED
  | SENSOR_ERROR_READ_FAILED
  | SENSOR_ERROR_OUT_OF_RANGE
  | SENSOR_ERROR_HARDWARE
  | SENSOR_ERROR_MEMORY
  | SENSOR_ERROR_COMMUNICATION
  | SENSOR_ERROR_CALIBRATION

datatype SensorType =
    SENSOR_TYPE_TEMPERATURE
  | SENSOR_TYPE_HUMIDITY
  | SENSOR_TYPE_PRESSURE
  | SENSOR_TYPE_GAS
  | SENSOR_TYPE_VIBRATION
  | SENSOR_TYPE_CURRENT
  | SENSOR_TYPE_VOLTAGE
  | SENSOR_TYPE_POWER
  | SENSOR_TYPE_FLOW
  | SENSOR_TYPE_LEVEL
  | SENSOR_TYPE_POSITION
  | SENSOR_TYPE_SPEED
  | SENSOR_TYPE_ACCELERATION
  | SENSOR_TYPE_GYROSCOPE
  | SENSOR_TYPE_MAGNETIC

record SensorData =
  data_type :: SensorType
  data_value :: real
  timestamp :: uint32_t
  is_valid :: bool
  error :: SensorError
  data_unit :: string

text \<open>
  The three behaviour slots are function pointers. A bound implementation acts on the
  module-level state \<open>'g\<close> of the variant that provides it and on the record it is handed.
\<close>

record 'g Sensor =
  sensor_type :: SensorType
  sensor_id :: string
  sensor_name :: string
  location :: string
  initialize :: "('g \<Rightarrow> bool \<times> 'g) option"
  read :: "('g \<Rightarrow> SensorData option \<Rightarrow> bool \<times> SensorData option \<times> 'g) option"
  cleanup :: "('g \<Rightarrow> 'g) option"
  last_error :: SensorError
  sensor_sample_count :: uint32_t
  error_count :: uint32_t

record TemperatureSensorData =
  temperature :: real
  humidity :: real
  dew_point :: real
  heat_index :: real

record TemperatureConfig =
  min_temp :: real
  max_temp :: real
  alert_threshold :: real
  critical_threshold :: real
  calibration_offset :: real
  sampling_rate_ms :: uint32_t
  enable_humidity :: bool
  enable_dew_point :: bool
  enable_heat_index :: bool

record TemperatureStats =
  min_value :: real
  max_value :: real
  avg_value :: float_value
  std_deviation :: real
  sample_count :: uint32_t
  alert_count :: uint32_t
  critical_count :: uint32_t

record TemperatureSensorPrivate =
  config :: TemperatureConfig
  last_reading :: TemperatureSensorData
  stats :: TemperatureStats
  last_sample_time :: uint32_t

text \<open>
  What temperature\_sensor.c reads from outside and the one static variable it owns:
  \<open>time_now\<close> is the value of \<open>(uint32_t)time(NULL)\<close> at the call, \<open>rand_unit k\<close> is the
  value of \<open>(float)rand() / RAND_MAX\<close> at the \<open>k\<close>-th call of \<open>rand\<close>, \<open>rand_calls\<close> counts
  the calls made so far, and \<open>private_data\<close> is the static pointer of that name.
\<close>

record temp_env =
  time_now :: uint32_t
  rand_unit :: "nat \<Rightarrow> real"
  rand_calls :: nat
  private_data :: "TemperatureSensorPrivate option"

section \<open>sensor.c\<close>

definition strncpy_n :: "nat \<Rightarrow> string \<Rightarrow> string" where
  \<comment> \<open>\<open>strncpy(dst, src, n); dst[n] = 0\<close> read back as a C string\<close>
  "strncpy_n n src = take n src"

definition default_init :: "'g \<Rightarrow> bool \<times> 'g" where
  "default_init g = (True, g)"

definition default_cleanup :: "'g \<Rightarrow> 'g" where
  "default_cleanup g = g"

definition sensor_init ::
  "'g Sensor option \<Rightarrow> SensorType \<Rightarrow> string option \<Rightarrow> 'g \<Rightarrow> bool \<times> 'g Sensor option \<times> 'g" where
  "sensor_init sensor ty ident g =
     (case sensor of
        None \<Rightarrow> (False, None, g)
      | Some s \<Rightarrow>
          (case ident of
             None \<Rightarrow> (False, Some (s\<lparr>last_error := SENSOR_ERROR_INVALID_PARAM\<rparr>), g)
           | Some i \<Rightarrow>
               (let s1 = s\<lparr>sensor_type := ty,
                           sensor_id := strncpy_n 31 i,
                           sensor_name := [],
                           location := [],
                           sensor_sample_count := 0,
                           error_count := 0,
                           initialize := Some default_init,
                           cleanup := Some default_cleanup,
                           last_error := SENSOR_ERROR_NONE\<rparr>;
                    (ok, g1) = default_init g
                in if \<not> ok
                   then (False, Some (s1\<lparr>last_error := SENSOR_ERROR_INIT_FAILED\<rparr>), g1)
                   else (True, Some s1, g1))))"





definition sensor_set_name :: "'g Sensor option \<Rightarrow> string option \<Rightarrow> 'g Sensor option" where
  "sensor_set_name sensor nm =
     (case (sensor, nm) of
        (Some s, Some n) \<Rightarrow> Some (s\<lparr>sensor_name := strncpy_n 63 n\<rparr>)
      | _ \<Rightarrow> sensor)"

definition sensor_set_location :: "'g Sensor option \<Rightarrow> string option \<Rightarrow> 'g Sensor option" where
  "sensor_set_location sensor loc =
     (case (sensor, loc) of
        (Some s, Some l) \<Rightarrow> Some (s\<lparr>location := strncpy_n 63 l\<rparr>)
      | _ \<Rightarrow> sensor)"

section \<open>temperature\_sensor.c\<close>

definition FLT_MAX :: real where
  "FLT_MAX = 340282346638528859811704183484516925440"

definition calculate_dew_point :: "real \<Rightarrow> real \<Rightarrow> real" where
  "calculate_dew_point t h = t - ((100 - h) / 5)"

definition calculate_heat_index :: "real \<Rightarrow> real \<Rightarrow> real" where
  "calculate_heat_index t h =
     (let temp_f = t * 9 / 5 + 32;
          hi_f = 0.5 * (temp_f + 61 + ((temp_f - 68) * 1.2) + (h * 0.094))
      in (hi_f - 32) * 5 / 9)"

definition update_stats :: "TemperatureSensorPrivate option \<Rightarrow> real \<Rightarrow> TemperatureSensorPrivate option" where
  "update_stats private v =
     (case private of
        None \<Rightarrow> None
      | Some p \<Rightarrow>
          (let st = stats p;
               st1 = (if v < min_value st then st\<lparr>min_value := v\<rparr> else st);
               st2 = (if v > max_value st1 then st1\<lparr>max_value := v\<rparr> else st1);
               st3 = st2\<lparr>avg_value :=
                          float_div
                            (float_add
                               (float_mul (avg_value st2) (float_of_uint32 (sample_count st2)))
                               (Finite v))
                            (float_of_uint32 (sample_count st2 + 1))\<rparr>;
               st4 = st3\<lparr>sample_count := sample_count st3 + 1\<rparr>
           in Some (p\<lparr>stats := st4\<rparr>)))"

definition with_private :: "(TemperatureSensorPrivate \<Rightarrow> TemperatureSensorPrivate) \<Rightarrow> temp_env \<Rightarrow> temp_env" where
  \<comment> \<open>an assignment \<open>private_data->\<dots> = \<dots>\<close> through the static pointer\<close>
  "with_private f env = env\<lparr>private_data := map_option f (private_data env)\<rparr>"

definition rand_next :: "temp_env \<Rightarrow> real \<times> temp_env" where
  \<comment> \<open>one evaluation of \<open>(float)rand() / RAND_MAX\<close>\<close>
  "rand_next env = (rand_unit env (rand_calls env), env\<lparr>rand_calls := Suc (rand_calls env)\<rparr>)"

definition simulate_reading :: "temp_env \<Rightarrow> TemperatureSensorPrivate \<Rightarrow> temp_env" where
  \<comment> \<open>lines 109 to 134 of temperature\_sensor.c: the simulated hardware read\<close>
  "simulate_reading env p =
     (let cfg = config p;
          base_temp = 25;
          (r1, env1) = rand_next env;
          variation = r1 * 2 - 1;
          lr1 = (last_reading p)\<lparr>temperature := base_temp + variation + calibration_offset cfg\<rparr>;
          (lr2, env2) =
             (if enable_humidity cfg
              then (let (r2, e) = rand_next env1 in (lr1\<lparr>humidity := 45 + r2 * 10\<rparr>, e))
              else (lr1\<lparr>humidity := 0\<rparr>, env1));
          lr3 = (if enable_dew_point cfg \<and> humidity lr2 > 0
                 then lr2\<lparr>dew_point := calculate_dew_point (temperature lr2) (humidity lr2)\<rparr>
                 else lr2);
          lr4 = (if enable_heat_index cfg \<and> humidity lr3 > 0
                 then lr3\<lparr>heat_index := calculate_heat_index (temperature lr3) (humidity lr3)\<rparr>
                 else lr3)
      in with_private (\<lambda>q. q\<lparr>last_reading := lr4\<rparr>) env2)"

definition temperature_init :: "temp_env \<Rightarrow> bool \<times> temp_env" where
  "temperature_init env = (True, env)"

definition temperature_read :: "temp_env \<Rightarrow> SensorData option \<Rightarrow> bool \<times> SensorData option \<times> temp_env" where
  "temperature_read env data =
     (case data of
        None \<Rightarrow> (False, None, env)
      | Some d \<Rightarrow>
          (case private_data env of
             None \<Rightarrow> (False, Some (d\<lparr>error := SENSOR_ERROR_INVALID_PARAM\<rparr>), env)
           | Some p \<Rightarrow>
               (let cfg = config p;
                    current_time = time_now env * 1000
                in if current_time - last_sample_time p < sampling_rate_ms cfg
                   then (True,
                         Some (d\<lparr>data_value := temperature (last_reading p),
                                 is_valid := True,
                                 error := SENSOR_ERROR_NONE\<rparr>),
                         env)
                   else
                     (let env1 = simulate_reading env p;
                          v = (case private_data env1 of
                                 Some q \<Rightarrow> temperature (last_reading q) | None \<Rightarrow> 0);
                          d1 = d\<lparr>data_value := v, is_valid := True, error := SENSOR_ERROR_NONE\<rparr>;
                          env2 = env1\<lparr>private_data := update_stats (private_data env1) v\<rparr>;
                          env3 = with_private (\<lambda>q. q\<lparr>last_sample_time := current_time\<rparr>) env2
                      in if v < min_temp cfg \<or> v > max_temp cfg
                         then (False, Some (d1\<lparr>error := SENSOR_ERROR_OUT_OF_RANGE\<rparr>), env3)
                         else
                           (let (d2, env4) =
                                  (if v > alert_threshold cfg
                                   then (d1\<lparr>error := SENSOR_ERROR_OUT_OF_RANGE\<rparr>,
                                         with_private (\<lambda>q. q\<lparr>stats := (stats q)\<lparr>alert_count :=
                                             alert_count (stats q) + 1\<rparr>\<rparr>) env3)
                                   else (d1, env3));
                                (d3, env5) =
                                  (if v > critical_threshold cfg
                                   then (d2\<lparr>error := SENSOR_ERROR_OUT_OF_RANGE\<rparr>,
                                         with_private (\<lambda>q. q\<lparr>stats := (stats q)\<lparr>critical_count :=
                                             critical_count (stats q) + 1\<rparr>\<rparr>) env4)
                                   else (d2, env4))
                            in (True, Some d3, env5))))))"

definition temperature_cleanup :: "temp_env \<Rightarrow> temp_env" where
  "temperature_cleanup env = env\<lparr>private_data := None\<rparr>"

definition initial_stats :: TemperatureStats where
  \<comment> \<open>lines 62 to 68 and 196 to 202: the seed of the running statistics\<close>
  "initial_stats =
     \<lparr>min_value = FLT_MAX, max_value = - FLT_MAX, avg_value = Finite 0,
      std_deviation = 0, sample_count = 0, alert_count = 0, critical_count = 0\<rparr>"

definition temperature_sensor_init ::
  "bool \<Rightarrow> temp_env Sensor option \<Rightarrow> string option \<Rightarrow> TemperatureConfig option \<Rightarrow> temp_env
     \<Rightarrow> bool \<times> temp_env Sensor option \<times> temp_env" where
  \<comment> \<open>\<open>malloc_ok\<close> tells whether the call of \<open>malloc\<close> returns memory\<close>
  "temperature_sensor_init malloc_ok sensor ident cfg env =
     (case (sensor, ident, cfg) of
        (Some s, Some i, Some c) \<Rightarrow>
          (case sensor_init (Some s) SENSOR_TYPE_TEMPERATURE (Some i) env of
             (False, s1, env1) \<Rightarrow> (False, s1, env1)
           | (True, s1, env1) \<Rightarrow>
               if \<not> malloc_ok
               then (False, map_option (\<lambda>x. x\<lparr>last_error := SENSOR_ERROR_MEMORY\<rparr>) s1,
                     env1\<lparr>private_data := None\<rparr>)
               else
                 (let p = \<lparr>config = c,
                           last_reading = \<lparr>temperature = 0, humidity = 0, dew_point = 0,
                                           heat_index = 0\<rparr>,
                           stats = initial_stats,
                           last_sample_time = 0\<rparr>;
                      s2 = map_option (\<lambda>x. x\<lparr>initialize := Some temperature_init,
                                              read := Some temperature_read,
                                              cleanup := Some temperature_cleanup\<rparr>) s1;
                      s3 = sensor_set_name s2 (Some ''Temperature Sensor'');
                      s4 = sensor_set_location s3 (Some ''Factory Floor'')
                  in (True, s4, env1\<lparr>private_data := Some p\<rparr>)))
      | _ \<Rightarrow> (False, map_option (\<lambda>x. x\<lparr>last_error := SENSOR_ERROR_INVALID_PARAM\<rparr>) sensor, env))"


section \<open>logger.h and logger.c\<close>

text \<open>
  \<open>LogLevel\<close> is a C enumeration whose values are compared as unsigned integers and used
  as an index into \<open>level_strings\<close>; it is a natural number here, the five enumerators being
  0 to 4.
\<close>

type_synonym LogLevel = nat

definition LOG_LEVEL_DEBUG :: LogLevel where "LOG_LEVEL_DEBUG = 0"
definition LOG_LEVEL_INFO :: LogLevel where "LOG_LEVEL_INFO = 1"
definition LOG_LEVEL_WARNING :: LogLevel where "LOG_LEVEL_WARNING = 2"
definition LOG_LEVEL_ERROR :: LogLevel where "LOG_LEVEL_ERROR = 3"
definition LOG_LEVEL_CRITICAL :: LogLevel where "LOG_LEVEL_CRITICAL = 4"

record LoggerConfig =
  log_file :: string
  min_level :: LogLevel
  log_to_console :: bool
  log_to_file :: bool
  log_timestamp :: bool
  log_sensor_data :: bool
  max_file_size_kb :: uint32_t
  max_files :: uint32_t

text \<open>
  The \<open>FILE*\<close> of the private data is the path the stream was opened on, or \<open>None\<close> for
  \<open>NULL\<close>.
\<close>

record LoggerPrivate =
  logger_config :: LoggerConfig
  open_log_file :: "string option"
  current_file_size :: uint32_t
  file_count :: uint32_t

text \<open>
  The part of the world logger.c acts on: its static pointer, the lines printed on the
  console, the files (a file is the list of its lines), which paths \<open>fopen(path, "w")\<close>
  can open, and the text \<open>strftime\<close> produces for the current local time.
\<close>

record logger_world =
  logger_private_data :: "LoggerPrivate option"
  console :: "string list"
  files :: "string \<rightharpoonup> string list"
  can_open :: "string \<Rightarrow> bool"
  time_text :: string

definition level_strings :: "string list" where
  "level_strings = [''DEBUG'', ''INFO'', ''WARNING'', ''ERROR'', ''CRITICAL'']"

definition logger_level_to_string :: "LogLevel \<Rightarrow> string" where
  "logger_level_to_string level =
     (if level \<ge> length level_strings then ''UNKNOWN'' else level_strings ! level)"

definition tolower :: "char \<Rightarrow> char" where
  \<comment> \<open>\<open>tolower\<close> of the C locale\<close>
  "tolower c =
     (case map_of (zip ''ABCDEFGHIJKLMNOPQRSTUVWXYZ'' ''abcdefghijklmnopqrstuvwxyz'') c of
        Some l \<Rightarrow> l
      | None \<Rightarrow> c)"

fun strcasecmp :: "string \<Rightarrow> string \<Rightarrow> int" where
  "strcasecmp [] [] = 0"
| "strcasecmp [] (b # bs) = 0 - int (of_char (tolower b))"
| "strcasecmp (a # as) [] = int (of_char (tolower a)) - 0"
| "strcasecmp (a # as) (b # bs) =
     (if tolower a \<noteq> tolower b
      then int (of_char (tolower a)) - int (of_char (tolower b))
      else if a = CHR 0x00 then 0
      else strcasecmp as bs)"

definition logger_string_to_level :: "string option \<Rightarrow> LogLevel" where
  "logger_string_to_level level_str =
     (case level_str of
        None \<Rightarrow> LOG_LEVEL_INFO
      | Some s \<Rightarrow>
          (case find (\<lambda>i. strcasecmp s (level_strings ! i) = 0) [0..<length level_strings] of
             Some i \<Rightarrow> i
           | None \<Rightarrow> LOG_LEVEL_INFO))"

definition snprintf_n :: "nat \<Rightarrow> string \<Rightarrow> string" where
  \<comment> \<open>\<open>snprintf(buf, n, \<dots>)\<close>: the text is cut to fit \<open>n\<close> bytes with the NUL\<close>
  "snprintf_n n text = take (n - 1) text"

definition digit_char :: "nat \<Rightarrow> char" where
  "digit_char d = ''0123456789'' ! d"

fun show_nat :: "nat \<Rightarrow> string" where
  \<comment> \<open>the text \<open>%d\<close> prints for a number that is not negative\<close>
  "show_nat n =
     (if n < 10 then [digit_char n]
      else show_nat (n div 10) @ [digit_char (n mod 10)])"

definition format_message :: "LoggerConfig \<Rightarrow> string \<Rightarrow> LogLevel \<Rightarrow> string \<Rightarrow> string" where
  "format_message cfg ts level message =
     (if log_timestamp cfg
      then snprintf_n 512 (''['' @ ts @ ''] ['' @ logger_level_to_string level @ ''] '' @ message)
      else snprintf_n 512 (''['' @ logger_level_to_string level @ ''] '' @ message))"

definition remove_file :: "string \<Rightarrow> (string \<rightharpoonup> string list) \<Rightarrow> (string \<rightharpoonup> string list)" where
  "remove_file name fs = fs(name := None)"

definition rename_file ::
  "string \<Rightarrow> string \<Rightarrow> (string \<rightharpoonup> string list) \<Rightarrow> (string \<rightharpoonup> string list)" where
  \<comment> \<open>POSIX \<open>rename\<close>: fails without effect when the old name does not exist, else replaces the new name\<close>
  "rename_file old_name new_name fs =
     (case fs old_name of
        None \<Rightarrow> fs
      | Some content \<Rightarrow> (fs(old_name := None))(new_name \<mapsto> content))"

definition append_line :: "string \<Rightarrow> string \<Rightarrow> (string \<rightharpoonup> string list) \<Rightarrow> (string \<rightharpoonup> string list)" where
  \<comment> \<open>\<open>fprintf(f, "%s\n", line); fflush(f)\<close> on the stream opened on \<open>name\<close>\<close>
  "append_line name line fs =
     fs(name \<mapsto> (case fs name of None \<Rightarrow> [] | Some content \<Rightarrow> content) @ [line])"

fun rotate_files ::
  "string \<Rightarrow> uint32_t \<Rightarrow> nat \<Rightarrow> (string \<rightharpoonup> string list) \<Rightarrow> (string \<rightharpoonup> string list)" where
  \<comment> \<open>the loop of \<open>logger_rotate_log_file\<close>; the third argument is \<open>i + 1\<close>\<close>
  "rotate_files path maxf 0 fs = fs"
| "rotate_files path maxf (Suc i) fs =
     (let old_name = (if i = 0 then strncpy_n 127 path
                      else snprintf_n 128 (path @ ''.'' @ show_nat i));
          new_name = snprintf_n 128 (path @ ''.'' @ show_nat (i + 1))
      in rotate_files path maxf i
           (if (of_nat i :: uint32_t) = maxf - 1
            then remove_file old_name fs
            else rename_file old_name new_name fs))"

text \<open>
  \<open>logger_log\<close> and \<open>logger_rotate_log_file\<close> call each other: a write that reaches the size
  threshold rotates, and a rotation logs a notice. The first argument bounds the depth of
  that nesting: a rotation that still has to log its notice when the bound is used up yields
  \<open>None\<close>. Every other path returns without looking at the bound. The local \<open>LogEntry\<close> that
  \<open>logger_log\<close> fills is never read and is left out.
\<close>

fun logger_log :: "nat \<Rightarrow> LogLevel \<Rightarrow> string option \<Rightarrow> logger_world \<Rightarrow> (bool \<times> logger_world) option"
  and logger_rotate_log_file :: "nat \<Rightarrow> logger_world \<Rightarrow> logger_world option" where
  "logger_log fuel level message w =
     (case logger_private_data w of
        None \<Rightarrow> Some (False, w)
      | Some p \<Rightarrow>
          (case message of
             None \<Rightarrow> Some (False, w)
           | Some m \<Rightarrow>
               if level < min_level (logger_config p) then Some (False, w)
               else
                 (let cfg = logger_config p;
                      formatted_message = format_message cfg (time_text w) level m;
                      w1 = (if log_to_console cfg
                            then w\<lparr>console := console w @ [formatted_message]\<rparr> else w)
                  in case open_log_file p of
                       Some f \<Rightarrow>
                         if log_to_file cfg
                         then
                           (let size1 = current_file_size p
                                        + (of_nat (length formatted_message) + 1);
                                w2 = w1\<lparr>files := append_line f formatted_message (files w1),
                                        logger_private_data :=
                                          Some (p\<lparr>current_file_size := size1\<rparr>)\<rparr>
                            in if size1 \<ge> max_file_size_kb cfg * 1024
                               then map_option (Pair True) (logger_rotate_log_file fuel w2)
                               else Some (True, w2))
                         else Some (True, w1)
                     | None \<Rightarrow> Some (True, w1))))"
| "logger_rotate_log_file fuel w =
     (case logger_private_data w of
        None \<Rightarrow> Some w
      | Some p \<Rightarrow>
          (case open_log_file p of
             None \<Rightarrow> Some w
           | Some f \<Rightarrow>
               (let cfg = logger_config p;
                    p1 = p\<lparr>open_log_file := None\<rparr>;
                    top = sint (max_files cfg - 1);
                    fs1 = (if 0 \<le> top
                           then rotate_files (log_file cfg) (max_files cfg) (Suc (nat top)) (files w)
                           else files w)
                in if can_open w (log_file cfg)
                   then
                     (let w2 = w\<lparr>files := fs1(log_file cfg \<mapsto> []),
                                 logger_private_data :=
                                   Some (p1\<lparr>open_log_file := Some (log_file cfg),
                                            current_file_size := 0\<rparr>)\<rparr>
                      in case fuel of
                           0 \<Rightarrow> None
                         | Suc k \<Rightarrow>
                             map_option snd
                               (logger_log k LOG_LEVEL_INFO (Some ''Log file rotated'') w2))
                   else Some (w\<lparr>files := fs1, logger_private_data := Some p1\<rparr>))))"

section \<open>Notions used to state the properties\<close>

definition fresh :: "temp_env \<Rightarrow> TemperatureSensorPrivate \<Rightarrow> bool" where
  \<comment> \<open>the test of line 101 fails: the read is not debounced and takes a sample\<close>
  "fresh env p = (\<not> time_now env * 1000 - last_sample_time p < sampling_rate_ms (config p))"

definition sample_value :: "temp_env \<Rightarrow> TemperatureSensorPrivate \<Rightarrow> real" where
  \<comment> \<open>the value line 113 computes for the next sample\<close>
  "sample_value env p = 25 + (rand_unit env (rand_calls env) * 2 - 1) + calibration_offset (config p)"

definition bump :: "bool \<Rightarrow> uint32_t \<Rightarrow> uint32_t" where
  "bump b n = (if b then n + 1 else n)"

definition in_range :: "TemperatureConfig \<Rightarrow> real \<Rightarrow> bool" where
  "in_range c v = (\<not> (v < min_temp c \<or> v > max_temp c))"

definition after_init :: "TemperatureConfig \<Rightarrow> TemperatureSensorPrivate" where
  \<comment> \<open>the private data \<open>temperature_sensor_init\<close> builds from the configuration \<open>c\<close>\<close>
  "after_init c =
     \<lparr>config = c,
      last_reading = \<lparr>temperature = 0, humidity = 0, dew_point = 0, heat_index = 0\<rparr>,
      stats = initial_stats, last_sample_time = 0\<rparr>"

definition main_config :: TemperatureConfig where
  \<comment> \<open>the configuration the program's \<open>main\<close> uses\<close>
  "main_config =
     \<lparr>min_temp = 0, max_temp = 50, alert_threshold = 40, critical_threshold = 45,
      calibration_offset = 0, sampling_rate_ms = 1000,
      enable_humidity = True, enable_dew_point = True, enable_heat_index = True\<rparr>"

definition env_at :: "uint32_t \<Rightarrow> real \<Rightarrow> TemperatureSensorPrivate \<Rightarrow> temp_env" where
  \<comment> \<open>the clock at \<open>t\<close> seconds, every call of \<open>rand\<close> giving the fraction \<open>u\<close>, private data \<open>p\<close>\<close>
  "env_at t u p = \<lparr>time_now = t, rand_unit = (\<lambda>k. u), rand_calls = 0, private_data = Some p\<rparr>"

definition blank_data :: SensorData where
  "blank_data =
     \<lparr>data_type = SENSOR_TYPE_TEMPERATURE, data_value = 0, timestamp = 0, is_valid = False,
      error = SENSOR_ERROR_NONE, data_unit = []\<rparr>"

definition result_ok :: "bool \<times> SensorData option \<times> temp_env \<Rightarrow> bool" where
  "result_ok r = fst r"

definition result_data :: "bool \<times> SensorData option \<times> temp_env \<Rightarrow> SensorData option" where
  "result_data r = fst (snd r)"

definition result_stats :: "bool \<times> SensorData option \<times> temp_env \<Rightarrow> TemperatureStats option" where
  "result_stats r = map_option stats (private_data (snd (snd r)))"

definition blank_sensor :: "'g Sensor" where
  "blank_sensor =
     \<lparr>sensor_type = SENSOR_TYPE_MAGNETIC, sensor_id = [], sensor_name = [], location = [],
      initialize = None, read = None, cleanup = None, last_error = SENSOR_ERROR_NONE,
      sensor_sample_count = 0, error_count = 0\<rparr>"

definition no_private_env :: temp_env where
  "no_private_env = \<lparr>time_now = 0, rand_unit = (\<lambda>k. 0), rand_calls = 0, private_data = None\<rparr>"

definition invalid_config :: TemperatureConfig where
  \<comment> \<open>the range and the sampling rate of the test \<open>test_error_handling\<close>\<close>
  "invalid_config = main_config\<lparr>min_temp := 125, max_temp := - 40, sampling_rate_ms := 0\<rparr>"

definition hot_private :: TemperatureSensorPrivate where
  "hot_private = after_init (main_config\<lparr>calibration_offset := 30\<rparr>)"

definition cold_private :: TemperatureSensorPrivate where
  "cold_private = after_init (main_config\<lparr>calibration_offset := - 30\<rparr>)"

definition warm_private :: TemperatureSensorPrivate where
  "warm_private = after_init (main_config\<lparr>calibration_offset := 20\<rparr>)"

definition sampled_private :: TemperatureSensorPrivate where
  "sampled_private =
     \<lparr>config = main_config,
      last_reading = \<lparr>temperature = 25, humidity = 50, dew_point = 15,
                       heat_index = calculate_heat_index 25 50\<rparr>,
      stats = \<lparr>min_value = 25, max_value = 25, avg_value = Finite 25, std_deviation = 0,
               sample_count = 1, alert_count = 0, critical_count = 0\<rparr>,
      last_sample_time = 1000000\<rparr>"


definition sampled_data :: SensorData where
  "sampled_data = blank_data\<lparr>data_value := 25, is_valid := True\<rparr>"

definition slow_private :: TemperatureSensorPrivate where
  \<comment> \<open>a sensor sampling every 2000 ms whose last sample, 25 degrees, was taken at 1000 s\<close>
  "slow_private = sampled_private\<lparr>config := main_config\<lparr>sampling_rate_ms := 2000\<rparr>\<rparr>"






definition wrapping_private :: TemperatureSensorPrivate where
  \<comment> \<open>\<open>2^32 - 1\<close> samples taken so far, their average 25\<close>
  "wrapping_private = sampled_private\<lparr>stats := (stats sampled_private)\<lparr>sample_count := - 1\<rparr>\<rparr>"



definition temperature_sensor :: "temp_env Sensor" where
  "temperature_sensor =
     \<lparr>sensor_type = SENSOR_TYPE_TEMPERATURE, sensor_id = ''TEMP001'',
      sensor_name = ''Temperature Sensor'', location = ''Factory Floor'',
      initialize = Some temperature_init, read = Some temperature_read,
      cleanup = Some temperature_cleanup, last_error = SENSOR_ERROR_NONE,
      sensor_sample_count = 0, error_count = 0\<rparr>"

definition fold_case :: "string \<Rightarrow> string" where
  \<comment> \<open>what \<open>strcasecmp\<close> sees of a buffer: its bytes up to the first NUL, in lower case\<close>
  "fold_case s = map tolower (takeWhile (\<lambda>c. c \<noteq> CHR 0x00) s)"

definition below_min_level :: "logger_world \<Rightarrow> LogLevel \<Rightarrow> bool" where
  "below_min_level w level =
     (case logger_private_data w of
        None \<Rightarrow> False
      | Some p \<Rightarrow> level < min_level (logger_config p))"

definition default_config :: LoggerConfig where
  \<comment> \<open>\<open>default_config\<close> of logger.c\<close>
  "default_config =
     \<lparr>log_file = ''logs/edgetrack.log'', min_level = LOG_LEVEL_INFO, log_to_console = True,
      log_to_file = True, log_timestamp = True, log_sensor_data = True,
      max_file_size_kb = 1024, max_files = 5\<rparr>"

definition running_logger :: "LoggerConfig \<Rightarrow> uint32_t \<Rightarrow> (string \<rightharpoonup> string list) \<Rightarrow> logger_world" where
  \<comment> \<open>a logger with its file open, \<open>n\<close> bytes counted so far, over the files \<open>fs\<close>\<close>
  "running_logger cfg n fs =
     \<lparr>logger_private_data =
        Some \<lparr>logger_config = cfg, open_log_file = Some (log_file cfg),
              current_file_size = n, file_count = 0\<rparr>,
      console = [], files = fs, can_open = (\<lambda>path. True),
      time_text = ''2025-01-01 12:00:00''\<rparr>"

definition rot_name :: "string \<Rightarrow> nat \<Rightarrow> string" where
  \<comment> \<open>the name the rotation loop builds for index \<open>i\<close>: the plain path for 0\<close>
  "rot_name path i =
     (if i = 0 then strncpy_n 127 path else snprintf_n 128 (path @ ''.'' @ show_nat i))"

definition rotation_steps :: "LoggerConfig \<Rightarrow> nat" where
  \<comment> \<open>how often the loop of \<open>logger_rotate_log_file\<close> runs: \<open>max_files\<close>, read as an \<open>int\<close>\<close>
  "rotation_steps cfg =
     (if 0 \<le> sint (max_files cfg - 1) then Suc (nat (sint (max_files cfg - 1))) else 0)"

definition notice_line :: "logger_world \<Rightarrow> LoggerConfig \<Rightarrow> string" where
  "notice_line w cfg = format_message cfg (time_text w) LOG_LEVEL_INFO ''Log file rotated''"

definition numbered :: "string \<Rightarrow> nat \<Rightarrow> string" where
  \<comment> \<open>the name \<open><path>.k\<close> in full, the plain path for \<open>k = 0\<close>\<close>
  "numbered path k = (if k = 0 then path else path @ ''.'' @ show_nat k)"

definition names_fit :: "LoggerConfig \<Rightarrow> bool" where
  \<comment> \<open>the longest name the loop builds, \<open><path>.(max_files - 1)\<close>, fits a 128-byte buffer with its NUL\<close>
  "names_fit cfg \<longleftrightarrow>
     length (log_file cfg)
       + (if rotation_steps cfg \<le> 1 then 0 else 1 + length (show_nat (rotation_steps cfg - 1)))
     \<le> 127"

definition log_files :: "string \<Rightarrow> (string \<rightharpoonup> string list) \<Rightarrow> string set" where
  \<comment> \<open>the current log file and the rotated ones, among the files that exist\<close>
  "log_files path fs = {x. fs x \<noteq> None \<and> x \<in> range (numbered path)}"

definition rotated_files :: "LoggerConfig \<Rightarrow> (string \<rightharpoonup> string list) \<Rightarrow> (string \<rightharpoonup> string list)" where
  \<comment> \<open>the whole loop, as \<open>logger_rotate_log_file\<close> starts it\<close>
  "rotated_files cfg fs =
     (if 0 \<le> sint (max_files cfg - 1)
      then rotate_files (log_file cfg) (max_files cfg) (Suc (nat (sint (max_files cfg - 1)))) fs
      else fs)"

definition small_config :: LoggerConfig where
  "small_config =
     \<lparr>log_file = ''app.log'', min_level = LOG_LEVEL_INFO, log_to_console = True,
      log_to_file = True, log_timestamp = False, log_sensor_data = True,
      max_file_size_kb = 1, max_files = 3\<rparr>"

definition full_private :: LoggerPrivate where
  "full_private =
     \<lparr>logger_config = small_config, open_log_file = Some ''app.log'',
      current_file_size = 1020, file_count = 0\<rparr>"

definition full_world :: logger_world where
  "full_world =
     \<lparr>logger_private_data = Some full_private,
      console = [],
      files = [''app.log'' \<mapsto> [''old''], ''app.log.1'' \<mapsto> [''older''],
               ''app.log.2'' \<mapsto> [''oldest'']],
      can_open = (\<lambda>path. True),
      time_text = ''2025-01-01 12:00:00''\<rparr>"

definition zero_config :: LoggerConfig where
  "zero_config = default_config\<lparr>max_file_size_kb := 0\<rparr>"

definition long_path :: string where
  "long_path = replicate 126 CHR ''a''"

definition long_config :: LoggerConfig where
  "long_config = small_config\<lparr>log_file := long_path\<rparr>"

section \<open>Properties of single-precision rounding\<close>

lemma two_powi_mono: "m \<le> n \<Longrightarrow> (2::real) powi m \<le> 2 powi n"
proof -
  assume "m \<le> n"
  then have "(1::real) \<le> 2 powi (n - m)" by (simp add: one_le_power_int)
  moreover have "(0::real) \<le> 2 powi m" by (simp add: zero_le_power_int)
  ultimately have "(2::real) powi m * 1 \<le> 2 powi m * 2 powi (n - m)"
    by (rule mult_left_mono)
  moreover have "(2::real) powi n = 2 powi m * 2 powi (n - m)"
    using power_int_add[of "2::real" m "n - m"] by simp
  ultimately show ?thesis by simp
qed

lemma find_upto_None:
  assumes "find P [a..b] = None" and "a \<le> e" and "e \<le> b"
  shows "\<not> P e"
  using assms by (simp add: find_None_iff)

lemma find_upto_Some:
  assumes "find P [a..b] = Some e"
  shows "a \<le> e" and "e \<le> b" and "P e" and "\<And>j. a \<le> j \<Longrightarrow> j < e \<Longrightarrow> \<not> P j"
proof -
  from assms obtain i where i: "i < length [a..b]" "P ([a..b] ! i)" "e = [a..b] ! i"
      "\<forall>j<i. \<not> P ([a..b] ! j)"
    unfolding find_Some_iff by blast
  have nth: "\<And>j. j \<le> i \<Longrightarrow> [a..b] ! j = a + int j"
    using i(1) by (intro nth_upto) simp
  have e: "e = a + int i" using i(3) nth by simp
  show "a \<le> e" using e by simp
  show "e \<le> b" using e i(1) by simp
  show "P e" using i(2,3) by simp
  show "\<not> P j" if "a \<le> j" "j < e" for j
  proof -
    have "nat (j - a) < i" using that e by simp
    then have "\<not> P ([a..b] ! nat (j - a))" using i(4) by blast
    moreover have "[a..b] ! nat (j - a) = j" using nth[of "nat (j - a)"] \<open>nat (j - a) < i\<close> that by simp
    ultimately show ?thesis by simp
  qed
qed

lemma float_exponent_bounds:
  "- 126 \<le> float_exponent x" "float_exponent x \<le> 127"
  "float_exponent x = - 126 \<or> 2 powi (float_exponent x) \<le> \<bar>x\<bar>"
  "float_exponent x = 127 \<or> \<bar>x\<bar> < 2 powi (float_exponent x + 1)"
proof -
  let ?P = "\<lambda>e. \<bar>x\<bar> < 2 powi (e + 1)"
  have "- 126 \<le> float_exponent x \<and> float_exponent x \<le> 127
      \<and> (float_exponent x = - 126 \<or> 2 powi (float_exponent x) \<le> \<bar>x\<bar>)
      \<and> (float_exponent x = 127 \<or> \<bar>x\<bar> < 2 powi (float_exponent x + 1))"
  proof (cases "find ?P [- 126..126]")
    case None
    have "\<not> ?P 126" by (rule find_upto_None[OF None]) simp_all
    moreover have "float_exponent x = 127" unfolding float_exponent_def None by simp
    ultimately show ?thesis by simp
  next
    case (Some e)
    note s = find_upto_Some[OF Some]
    have f: "float_exponent x = e" unfolding float_exponent_def Some by simp
    have "e = - 126 \<or> 2 powi e \<le> \<bar>x\<bar>"
    proof (cases "e = - 126")
      case False
      then have "\<not> ?P (e - 1)" using s(1) by (intro s(4)) simp_all
      then show ?thesis by simp
    qed simp
    then show ?thesis unfolding f using s(1,2,3) by simp
  qed
  then show "- 126 \<le> float_exponent x" "float_exponent x \<le> 127"
    "float_exponent x = - 126 \<or> 2 powi (float_exponent x) \<le> \<bar>x\<bar>"
    "float_exponent x = 127 \<or> \<bar>x\<bar> < 2 powi (float_exponent x + 1)"
    by blast+
qed

lemma float_exponent_eq:
  assumes "- 126 \<le> e" and "e \<le> 127"
    and "e = - 126 \<or> 2 powi e \<le> \<bar>x\<bar>"
    and "e = 127 \<or> \<bar>x\<bar> < 2 powi (e + 1)"
  shows "float_exponent x = e"
proof (rule ccontr)
  let ?f = "float_exponent x"
  assume ne: "?f \<noteq> e"
  note b = float_exponent_bounds[of x]
  show False
  proof (cases "?f < e")
    case True
    then have "?f \<noteq> 127" "e \<noteq> - 126" using b(1) assms(2) by auto
    then have "\<bar>x\<bar> < 2 powi (?f + 1)" "2 powi e \<le> \<bar>x\<bar>" using b(4) assms(3) by auto
    moreover have "(2::real) powi (?f + 1) \<le> 2 powi e" using True by (intro two_powi_mono) simp
    ultimately show False by simp
  next
    case False
    then have lt: "e < ?f" using ne by simp
    then have "e \<noteq> 127" "?f \<noteq> - 126" using b(2) assms(1) by auto
    then have "\<bar>x\<bar> < 2 powi (e + 1)" "2 powi ?f \<le> \<bar>x\<bar>" using b(3) assms(4) by auto
    moreover have "(2::real) powi (e + 1) \<le> 2 powi ?f" using lt by (intro two_powi_mono) simp
    ultimately show False by simp
  qed
qed

lemma round_half_even_of_int: "round_half_even (of_int n) = n"
  by (simp add: round_half_even_def)

lemma float_round_exact:
  assumes "x = of_int m * 2 powi k" and "\<bar>m\<bar> < 2 ^ 24" and "- 149 \<le> k"
  shows "float_round x = x"
proof -
  let ?e = "float_exponent x"
  note b = float_exponent_bounds[of x]
  have k: "?e - 23 \<le> k"
  proof (cases "?e = - 126")
    case True
    then show ?thesis using assms(3) by simp
  next
    case False
    then have "2 powi ?e \<le> \<bar>x\<bar>" using b(3) by simp
    also have "\<bar>x\<bar> = \<bar>of_int m\<bar> * 2 powi k"
      unfolding assms(1) by (simp add: abs_mult)
    also have "\<dots> < 2 ^ 24 * 2 powi k"
    proof -
      have "\<bar>of_int m :: real\<bar> < 2 ^ 24" using assms(2) 
        by (metis of_int_abs of_int_less_numeral_power_cancel_iff)
      moreover have "(0::real) < 2 powi k" by (simp add: zero_less_power_int)
      ultimately show ?thesis by simp
    qed
    also have "\<dots> = 2 powi (k + 24)"
      using power_int_add[of "2::real" k 24] by simp
    finally have "(2::real) powi ?e < 2 powi (k + 24)" .
    then have "\<not> k + 24 \<le> ?e" using two_powi_mono[of "k + 24" ?e] by auto
    then show ?thesis by simp
  qed
  define d where "d = nat (k - (?e - 23))"
  have kd: "k = (?e - 23) + int d" using k by (simp add: d_def)
  have "(2::real) powi k = 2 powi (?e - 23) * 2 ^ d"
    unfolding kd using power_int_add[of "2::real" "?e - 23" "int d"] by simp
  then have x: "x = of_int (m * 2 ^ d) * 2 powi (?e - 23)"
    unfolding assms(1) by (simp add: mult.commute)
  have nz: "(2::real) powi (?e - 23) \<noteq> 0" by simp
  have "x / 2 powi (?e - 23) = of_int (m * 2 ^ d)"
    using x nz by (metis nonzero_eq_divide_eq)
  then have "float_round x = of_int (m * 2 ^ d) * 2 powi (?e - 23)"
    by (simp add: float_round_def round_half_even_of_int Let_def del: of_int_mult of_int_power)
  then show ?thesis using x by simp
qed

lemma to_float_exact:
  assumes "x = of_int m * 2 powi k" and "\<bar>m\<bar> < 2 ^ 24" and "- 149 \<le> k" and "k \<le> 104"
  shows "to_float x = Finite x"
proof -
  have "\<bar>x\<bar> = \<bar>of_int m\<bar> * 2 powi k" unfolding assms(1) by (simp add: abs_mult)
  also have "\<dots> < 2 ^ 24 * 2 powi k"
  proof -
    have "\<bar>of_int m :: real\<bar> < 2 ^ 24" using assms(2)
      by (metis of_int_abs of_int_less_numeral_power_cancel_iff)
    moreover have "(0::real) < 2 powi k" by (simp add: zero_less_power_int)
    ultimately show ?thesis by simp
  qed
  also have "\<dots> = 2 powi (k + 24)"
    using power_int_add[of "2::real" k 24] by simp
  also have "\<dots> \<le> 2 powi 128" using assms(4) by (intro two_powi_mono) simp
  finally have "\<bar>x\<bar> < 2 powi 128" .
  then have "\<not> 2 powi 128 \<le> x" "\<not> x \<le> - (2 powi 128)" by auto
  then show ?thesis
    unfolding to_float_def float_round_exact[OF assms(1-3)] by (simp add: Let_def)
qed

lemma to_float_numeral:
  "numeral n < (16777216::int) \<Longrightarrow> to_float (numeral n) = Finite (numeral n)"
  by (rule to_float_exact[of _ "numeral n" 0]) simp_all

lemma to_float_0: "to_float 0 = Finite 0"
  by (rule to_float_exact[of _ 0 0]) simp_all

lemma to_float_1: "to_float 1 = Finite 1"
  by (rule to_float_exact[of _ 1 0]) simp_all

lemma float_of_uint32_exact:
  assumes "unat n < 2 ^ 24"
  shows "float_of_uint32 n = Finite (real (unat n))"
proof -
  have u: "real (unat n) = of_int (uint n)" by simp
  have "int (unat n) < 2 ^ 24" using assms by (simp only: of_nat_less_numeral_power_cancel_iff)
  then have "\<bar>uint n\<bar> < 2 ^ 24" by simp
  then have "to_float (of_int (uint n)) = Finite (of_int (uint n))"
    by (intro to_float_exact[of _ "uint n" 0]) simp_all
  then show ?thesis unfolding float_of_uint32_def u .
qed

lemma float_of_uint32_simps:
  "float_of_uint32 0 = Finite 0"
  "float_of_uint32 1 = Finite 1"
  "float_of_uint32 2 = Finite 2"
  "float_of_uint32 3 = Finite 3"
  by (simp_all add: float_of_uint32_exact)


lemmas float_eval = float_of_uint32_simps to_float_0 to_float_1 to_float_numeral

section \<open>Properties of the temperature sensor\<close>



lemma simulate_reading_private:
  assumes "private_data env = Some p"
  shows "\<exists>lr. private_data (simulate_reading env p) = Some (p\<lparr>last_reading := lr\<rparr>)
            \<and> temperature lr = sample_value env p"
  using assms
  by (auto simp: simulate_reading_def rand_next_def with_private_def sample_value_def Let_def
           split: prod.splits if_splits)

lemma temperature_read_fresh:
  assumes "private_data env = Some p" and "fresh env p"
  shows "\<exists>d' env' p'. temperature_read env (Some d) =
             (in_range (config p) (sample_value env p), Some d', env')
           \<and> private_data env' = Some p'
           \<and> data_value d' = sample_value env p
           \<and> is_valid d'
           \<and> error d' = (if in_range (config p) (sample_value env p)
                             \<and> \<not> sample_value env p > alert_threshold (config p)
                             \<and> \<not> sample_value env p > critical_threshold (config p)
                          then SENSOR_ERROR_NONE else SENSOR_ERROR_OUT_OF_RANGE)
           \<and> config p' = config p
           \<and> temperature (last_reading p') = sample_value env p
           \<and> last_sample_time p' = time_now env * 1000
           \<and> alert_count (stats p') =
                bump (in_range (config p) (sample_value env p)
                      \<and> sample_value env p > alert_threshold (config p)) (alert_count (stats p))
           \<and> critical_count (stats p') =
                bump (in_range (config p) (sample_value env p)
                      \<and> sample_value env p > critical_threshold (config p)) (critical_count (stats p))
           \<and> Some ((stats p')\<lparr>alert_count := alert_count (stats p),
                              critical_count := critical_count (stats p)\<rparr>)
               = map_option stats (update_stats (Some p) (sample_value env p))"
proof -
  obtain lr where lr: "private_data (simulate_reading env p) = Some (p\<lparr>last_reading := lr\<rparr>)"
    "temperature lr = sample_value env p"
    using simulate_reading_private[OF assms(1)] by blast
  have t: "time_now (simulate_reading env p) = time_now env"
    by (auto simp: simulate_reading_def rand_next_def with_private_def Let_def
           split: prod.splits if_splits)
  show ?thesis
    using assms lr
    by (auto simp: temperature_read_def fresh_def Let_def update_stats_def with_private_def
          in_range_def bump_def)
qed

lemmas concrete_defs =
  env_at_def after_init_def main_config_def blank_data_def hot_private_def cold_private_def
  warm_private_def invalid_config_def no_private_env_def blank_sensor_def
  result_ok_def result_data_def result_stats_def initial_stats_def FLT_MAX_def

lemma temperature_sensor_init_success:
  "temperature_sensor_init True (Some s) (Some i) (Some c) env =
     (True,
      Some (s\<lparr>sensor_type := SENSOR_TYPE_TEMPERATURE, sensor_id := take 31 i,
              sensor_name := ''Temperature Sensor'', location := ''Factory Floor'',
              sensor_sample_count := 0, error_count := 0,
              initialize := Some temperature_init, read := Some temperature_read,
              cleanup := Some temperature_cleanup, last_error := SENSOR_ERROR_NONE\<rparr>),
      env\<lparr>private_data := Some (after_init c)\<rparr>)"
  by (simp add: temperature_sensor_init_def sensor_init_def default_init_def strncpy_n_def
        sensor_set_name_def sensor_set_location_def after_init_def Let_def)

text \<open>
  Claim C1, evaluated at the configuration that the repository's own test
  \<open>test_error_handling\<close> calls invalid (\<open>min_temp = 125\<close>, \<open>max_temp = -40\<close>,
  \<open>sampling_rate_ms = 0\<close>): \<open>temperature_sensor_init\<close> does not look at the configuration;
  with all three arguments present and memory available it returns true and stores the
  configuration unchanged in freshly allocated private state.
\<close>

theorem init_accepts_invalid_config:
  "\<not> min_temp invalid_config < max_temp invalid_config
   \<and> \<not> sampling_rate_ms invalid_config > 0
   \<and> fst (temperature_sensor_init True (Some blank_sensor) (Some ''TEMP001'')
            (Some invalid_config) no_private_env) = True
   \<and> map_option config (private_data (snd (snd
        (temperature_sensor_init True (Some blank_sensor) (Some ''TEMP001'')
            (Some invalid_config) no_private_env)))) = Some invalid_config"
  by (simp add: temperature_sensor_init_success after_init_def)
     (simp add: invalid_config_def main_config_def)

lemma result_of_fresh_read:
  assumes "private_data env = Some p" and "fresh env p"
  shows "result_ok (temperature_read env (Some d)) = in_range (config p) (sample_value env p)"
    and "map_option error (result_data (temperature_read env (Some d))) =
           Some (if in_range (config p) (sample_value env p)
                      \<and> \<not> sample_value env p > alert_threshold (config p)
                      \<and> \<not> sample_value env p > critical_threshold (config p)
                 then SENSOR_ERROR_NONE else SENSOR_ERROR_OUT_OF_RANGE)"
    and "map_option is_valid (result_data (temperature_read env (Some d))) = Some True"
    and "map_option alert_count (result_stats (temperature_read env (Some d))) =
           Some (bump (in_range (config p) (sample_value env p)
                       \<and> sample_value env p > alert_threshold (config p)) (alert_count (stats p)))"
    and "map_option critical_count (result_stats (temperature_read env (Some d))) =
           Some (bump (in_range (config p) (sample_value env p)
                       \<and> sample_value env p > critical_threshold (config p))
                   (critical_count (stats p)))"
  using temperature_read_fresh[OF assms, of d]
  by (auto simp: result_ok_def result_data_def result_stats_def)

text \<open>
  Claim C2, as amended. For a fresh (non-debounced) sample the range check comes first:
  a sample outside \<open>[min_temp, max_temp]\<close> makes the read return false with error
  \<open>OutOfRange\<close> and leaves \<open>alert_count\<close> and \<open>critical_count\<close> as they were. For a
  sample inside the interval the read returns true, and the alert-threshold check and the
  critical-threshold check are independent of each other: each counter is incremented exactly
  when the sample is strictly above its own threshold, so both are incremented for one sample
  above both, and \<open>OutOfRange\<close> is reported as soon as one of them fires.
\<close>

theorem range_check_precedes_thresholds:
  assumes "private_data env = Some p" and "fresh env p"
  shows "(sample_value env p < min_temp (config p) \<or> sample_value env p > max_temp (config p) \<longrightarrow>
            result_ok (temperature_read env (Some d)) = False
          \<and> map_option error (result_data (temperature_read env (Some d)))
              = Some SENSOR_ERROR_OUT_OF_RANGE
          \<and> map_option alert_count (result_stats (temperature_read env (Some d)))
              = Some (alert_count (stats p))
          \<and> map_option critical_count (result_stats (temperature_read env (Some d)))
              = Some (critical_count (stats p)))
       \<and> (min_temp (config p) \<le> sample_value env p \<and> sample_value env p \<le> max_temp (config p) \<longrightarrow>
            result_ok (temperature_read env (Some d)) = True
          \<and> map_option alert_count (result_stats (temperature_read env (Some d)))
              = Some (if sample_value env p > alert_threshold (config p)
                      then alert_count (stats p) + 1 else alert_count (stats p))
          \<and> map_option critical_count (result_stats (temperature_read env (Some d)))
              = Some (if sample_value env p > critical_threshold (config p)
                      then critical_count (stats p) + 1 else critical_count (stats p))
          \<and> map_option error (result_data (temperature_read env (Some d)))
              = Some (if sample_value env p > alert_threshold (config p)
                         \<or> sample_value env p > critical_threshold (config p)
                      then SENSOR_ERROR_OUT_OF_RANGE else SENSOR_ERROR_NONE))"
  unfolding result_of_fresh_read[OF assms]
  by (auto simp: in_range_def bump_def)

lemma hot_facts:
  "private_data (env_at 1000 (1/2) hot_private) = Some hot_private"
  "fresh (env_at 1000 (1/2) hot_private) hot_private"
  "sample_value (env_at 1000 (1/2) hot_private) hot_private = 55"
  "config hot_private = main_config\<lparr>calibration_offset := 30\<rparr>"
  "stats hot_private = initial_stats"
  by (simp_all add: fresh_def sample_value_def concrete_defs)

text \<open>
  Counterexample to claim C2 as stated: with the configuration of \<open>main\<close> and a calibration
  offset of 30 the fresh sample is 55, above \<open>max_temp = 50\<close>, \<open>alert_threshold = 40\<close> and
  \<open>critical_threshold = 45\<close>, and the read leaves both counters at 0.
\<close>

theorem extreme_sample_counts_no_alert:
  "fresh (env_at 1000 (1/2) hot_private) hot_private
   \<and> sample_value (env_at 1000 (1/2) hot_private) hot_private > max_temp (config hot_private)
   \<and> sample_value (env_at 1000 (1/2) hot_private) hot_private > alert_threshold (config hot_private)
   \<and> sample_value (env_at 1000 (1/2) hot_private) hot_private > critical_threshold (config hot_private)
   \<and> map_option alert_count
        (result_stats (temperature_read (env_at 1000 (1/2) hot_private) (Some blank_data)))
       = Some (alert_count (stats hot_private))
   \<and> map_option critical_count
        (result_stats (temperature_read (env_at 1000 (1/2) hot_private) (Some blank_data)))
       = Some (critical_count (stats hot_private))
   \<and> alert_count (stats hot_private) \<noteq> alert_count (stats hot_private) + 1
   \<and> critical_count (stats hot_private) \<noteq> critical_count (stats hot_private) + 1"
  by (simp add: result_of_fresh_read[OF hot_facts(1,2)] hot_facts in_range_def bump_def
        main_config_def)

text \<open>
  The amended claim C2 at two concrete samples: 55 (out of range, no counter moves) and 46
  (in range and above both thresholds, both counters move).
\<close>

theorem range_check_precedes_thresholds_witness:
  "private_data (env_at 1000 (1/2) hot_private) = Some hot_private
   \<and> fresh (env_at 1000 (1/2) hot_private) hot_private
   \<and> sample_value (env_at 1000 (1/2) hot_private) hot_private > max_temp (config hot_private)
   \<and> result_ok (temperature_read (env_at 1000 (1/2) hot_private) (Some blank_data)) = False
   \<and> map_option error (result_data (temperature_read (env_at 1000 (1/2) hot_private) (Some blank_data)))
       = Some SENSOR_ERROR_OUT_OF_RANGE
   \<and> map_option alert_count
        (result_stats (temperature_read (env_at 1000 (1/2) hot_private) (Some blank_data))) = Some 0
   \<and> map_option critical_count
        (result_stats (temperature_read (env_at 1000 (1/2) hot_private) (Some blank_data))) = Some 0
   \<and> private_data (env_at 1000 1 warm_private) = Some warm_private
   \<and> fresh (env_at 1000 1 warm_private) warm_private
   \<and> min_temp (config warm_private) \<le> sample_value (env_at 1000 1 warm_private) warm_private
   \<and> sample_value (env_at 1000 1 warm_private) warm_private \<le> max_temp (config warm_private)
   \<and> sample_value (env_at 1000 1 warm_private) warm_private > alert_threshold (config warm_private)
   \<and> sample_value (env_at 1000 1 warm_private) warm_private > critical_threshold (config warm_private)
   \<and> result_ok (temperature_read (env_at 1000 1 warm_private) (Some blank_data)) = True
   \<and> map_option error (result_data (temperature_read (env_at 1000 1 warm_private) (Some blank_data)))
       = Some SENSOR_ERROR_OUT_OF_RANGE
   \<and> map_option alert_count
        (result_stats (temperature_read (env_at 1000 1 warm_private) (Some blank_data))) = Some 1
   \<and> map_option critical_count
        (result_stats (temperature_read (env_at 1000 1 warm_private) (Some blank_data))) = Some 1"
proof -
  have a: "private_data (env_at 1000 1 warm_private) = Some warm_private"
      "fresh (env_at 1000 1 warm_private) warm_private"
      "sample_value (env_at 1000 1 warm_private) warm_private = 46"
    by (simp_all add: fresh_def sample_value_def concrete_defs)
  have c: "min_temp (config warm_private) = 0" "max_temp (config warm_private) = 50"
      "alert_threshold (config warm_private) = 40" "critical_threshold (config warm_private) = 45"
      "alert_count (stats warm_private) = 0" "critical_count (stats warm_private) = 0"
      "max_temp (config hot_private) = 50" "min_temp (config hot_private) = 0"
      "alert_count (stats hot_private) = 0" "critical_count (stats hot_private) = 0"
    by (simp_all add: concrete_defs)
  show ?thesis
    using range_check_precedes_thresholds[OF hot_facts(1,2), of blank_data]
          range_check_precedes_thresholds[OF a(1,2), of blank_data]
    by (simp add: a c hot_facts(1,2,3))
qed

text \<open>
  Claim C3, evaluated at a failing input: with the configuration of \<open>main\<close> and a calibration
  offset of -30 the fresh sample is -5, below \<open>min_temp = 0\<close>. The read returns false and
  reports \<open>OutOfRange\<close>, but the record it hands back still has \<open>is_valid = true\<close>.
\<close>

theorem out_of_range_reading_stays_valid:
  "fresh (env_at 1000 (1/2) cold_private) cold_private
   \<and> sample_value (env_at 1000 (1/2) cold_private) cold_private < min_temp (config cold_private)
   \<and> result_ok (temperature_read (env_at 1000 (1/2) cold_private) (Some blank_data)) = False
   \<and> map_option error (result_data (temperature_read (env_at 1000 (1/2) cold_private) (Some blank_data)))
       = Some SENSOR_ERROR_OUT_OF_RANGE
   \<and> map_option is_valid (result_data (temperature_read (env_at 1000 (1/2) cold_private) (Some blank_data)))
       = Some True"
proof -
  have f: "private_data (env_at 1000 (1/2) cold_private) = Some cold_private"
      "fresh (env_at 1000 (1/2) cold_private) cold_private"
      "sample_value (env_at 1000 (1/2) cold_private) cold_private = - 5"
      "config cold_private = main_config\<lparr>calibration_offset := - 30\<rparr>"
    by (simp_all add: fresh_def sample_value_def concrete_defs)
  show ?thesis
    by (simp add: result_of_fresh_read[OF f(1,2)] f in_range_def main_config_def)
qed

text \<open>
  Claim C4, as amended. For every fresh sample inside \<open>[min_temp, max_temp]\<close>: if it is
  strictly above \<open>alert_threshold\<close> and not strictly above \<open>critical_threshold\<close>, the read
  returns true, increments \<open>alert_count\<close> and leaves \<open>critical_count\<close>; if it is strictly
  above \<open>critical_threshold\<close>, the read returns true and increments \<open>critical_count\<close>, and
  also \<open>alert_count\<close> when the sample is strictly above \<open>alert_threshold\<close>.
\<close>

theorem threshold_counters:
  assumes "private_data env = Some p" and "fresh env p"
    and "min_temp (config p) \<le> sample_value env p"
    and "sample_value env p \<le> max_temp (config p)"
  shows "(sample_value env p > alert_threshold (config p)
            \<and> \<not> sample_value env p > critical_threshold (config p) \<longrightarrow>
            result_ok (temperature_read env (Some d)) = True
          \<and> map_option alert_count (result_stats (temperature_read env (Some d)))
              = Some (alert_count (stats p) + 1)
          \<and> map_option critical_count (result_stats (temperature_read env (Some d)))
              = Some (critical_count (stats p)))
       \<and> (sample_value env p > critical_threshold (config p) \<longrightarrow>
            result_ok (temperature_read env (Some d)) = True
          \<and> map_option critical_count (result_stats (temperature_read env (Some d)))
              = Some (critical_count (stats p) + 1)
          \<and> (sample_value env p > alert_threshold (config p) \<longrightarrow>
               map_option alert_count (result_stats (temperature_read env (Some d)))
                 = Some (alert_count (stats p) + 1)))"
  unfolding result_of_fresh_read[OF assms(1,2)]
  using assms(3,4) by (auto simp: in_range_def bump_def)

lemma warm_facts:
  "private_data (env_at 1000 (1/2) warm_private) = Some warm_private"
  "fresh (env_at 1000 (1/2) warm_private) warm_private"
  "sample_value (env_at 1000 (1/2) warm_private) warm_private = 45"
  "config warm_private = main_config\<lparr>calibration_offset := 20\<rparr>"
  "stats warm_private = initial_stats"
  by (simp_all add: fresh_def sample_value_def concrete_defs)

text \<open>
  Counterexample to claim C4 as stated: a fresh sample of exactly 45 with
  \<open>critical_threshold = 45\<close> is greater than or equal to the critical threshold, yet the read
  increments \<open>alert_count\<close> only; \<open>critical_count\<close> stays 0.
\<close>

theorem sample_at_critical_threshold:
  "fresh (env_at 1000 (1/2) warm_private) warm_private
   \<and> sample_value (env_at 1000 (1/2) warm_private) warm_private
       \<ge> critical_threshold (config warm_private)
   \<and> critical_count (stats warm_private) = 0
   \<and> result_ok (temperature_read (env_at 1000 (1/2) warm_private) (Some blank_data)) = True
   \<and> map_option alert_count
        (result_stats (temperature_read (env_at 1000 (1/2) warm_private) (Some blank_data))) = Some 1
   \<and> map_option critical_count
        (result_stats (temperature_read (env_at 1000 (1/2) warm_private) (Some blank_data))) = Some 0"
  by (simp add: result_of_fresh_read[OF warm_facts(1,2)] warm_facts in_range_def bump_def
        main_config_def initial_stats_def)

text \<open>
  The amended claim C4 at two concrete samples: 46 (above both thresholds) and 44 (above the
  alert threshold only).
\<close>

theorem threshold_counters_witness:
  "private_data (env_at 1000 1 warm_private) = Some warm_private
   \<and> fresh (env_at 1000 1 warm_private) warm_private
   \<and> min_temp (config warm_private) \<le> sample_value (env_at 1000 1 warm_private) warm_private
   \<and> sample_value (env_at 1000 1 warm_private) warm_private \<le> max_temp (config warm_private)
   \<and> sample_value (env_at 1000 1 warm_private) warm_private > critical_threshold (config warm_private)
   \<and> sample_value (env_at 1000 1 warm_private) warm_private > alert_threshold (config warm_private)
   \<and> map_option critical_count
        (result_stats (temperature_read (env_at 1000 1 warm_private) (Some blank_data))) = Some 1
   \<and> map_option alert_count
        (result_stats (temperature_read (env_at 1000 1 warm_private) (Some blank_data))) = Some 1
   \<and> private_data (env_at 1000 0 warm_private) = Some warm_private
   \<and> fresh (env_at 1000 0 warm_private) warm_private
   \<and> min_temp (config warm_private) \<le> sample_value (env_at 1000 0 warm_private) warm_private
   \<and> sample_value (env_at 1000 0 warm_private) warm_private \<le> max_temp (config warm_private)
   \<and> sample_value (env_at 1000 0 warm_private) warm_private > alert_threshold (config warm_private)
   \<and> \<not> sample_value (env_at 1000 0 warm_private) warm_private > critical_threshold (config warm_private)
   \<and> result_ok (temperature_read (env_at 1000 0 warm_private) (Some blank_data)) = True
   \<and> map_option alert_count
        (result_stats (temperature_read (env_at 1000 0 warm_private) (Some blank_data))) = Some 1
   \<and> map_option critical_count
        (result_stats (temperature_read (env_at 1000 0 warm_private) (Some blank_data))) = Some 0"
proof -
  have a: "private_data (env_at 1000 1 warm_private) = Some warm_private"
      "fresh (env_at 1000 1 warm_private) warm_private"
      "sample_value (env_at 1000 1 warm_private) warm_private = 46"
    by (simp_all add: fresh_def sample_value_def concrete_defs)
  have b: "private_data (env_at 1000 0 warm_private) = Some warm_private"
      "fresh (env_at 1000 0 warm_private) warm_private"
      "sample_value (env_at 1000 0 warm_private) warm_private = 44"
    by (simp_all add: fresh_def sample_value_def concrete_defs)
  have c: "min_temp (config warm_private) = 0" "max_temp (config warm_private) = 50"
      "alert_threshold (config warm_private) = 40" "critical_threshold (config warm_private) = 45"
      "alert_count (stats warm_private) = 0" "critical_count (stats warm_private) = 0"
    by (simp_all add: concrete_defs)
  have ra: "min_temp (config warm_private) \<le> sample_value (env_at 1000 1 warm_private) warm_private"
      "sample_value (env_at 1000 1 warm_private) warm_private \<le> max_temp (config warm_private)"
    by (simp_all add: a c)
  have rb: "min_temp (config warm_private) \<le> sample_value (env_at 1000 0 warm_private) warm_private"
      "sample_value (env_at 1000 0 warm_private) warm_private \<le> max_temp (config warm_private)"
    by (simp_all add: b c)
  show ?thesis
    using threshold_counters[OF a(1,2) ra, of blank_data]
          threshold_counters[OF b(1,2) rb, of blank_data]
    by (simp add: a b c)
qed





lemma slow_private_reached:
  "temperature_read
     (env_at 1000 (1 / 2) (after_init (main_config\<lparr>sampling_rate_ms := 2000\<rparr>)))
     (Some blank_data) =
     (True, Some sampled_data, (env_at 1000 (1 / 2) slow_private)\<lparr>rand_calls := 2\<rparr>)"
  by (simp add: temperature_read_def simulate_reading_def rand_next_def
        with_private_def update_stats_def Let_def calculate_dew_point_def
        env_at_def after_init_def main_config_def blank_data_def initial_stats_def FLT_MAX_def
        sampled_data_def slow_private_def sampled_private_def float_eval)











lemmas read_defs =
  fresh_def temperature_read_def simulate_reading_def rand_next_def with_private_def
  update_stats_def Let_def calculate_dew_point_def calculate_heat_index_def main_config_def
  blank_data_def initial_stats_def FLT_MAX_def






lemma float_of_uint32_max: "float_of_uint32 (- 1) = Finite 4294967296"
proof -
  have "float_exponent 4294967295 = 31" by (rule float_exponent_eq) simp_all
  then have t: "to_float 4294967295 = Finite 4294967296"
    by (simp add: to_float_def float_round_def round_half_even_def Let_def)
  have "unat (- 1 :: uint32_t) = 4294967295" by (simp add: unsigned_minus_1_eq_mask mask_eq_exp_minus_1)
  then have u: "real (unat (- 1 :: uint32_t)) = 4294967295" by (simp only: of_nat_numeral)
  show ?thesis unfolding float_of_uint32_def u by (rule t)
qed

lemma to_float_wrapping:
  "to_float 107374182400 = Finite 107374182400"
  "to_float 107374182425 = Finite 107374182400"
proof -
  show "to_float 107374182400 = Finite 107374182400"
    by (rule to_float_exact[of _ 25 32]) simp_all
  have "float_exponent 107374182425 = 36" by (rule float_exponent_eq) simp_all
  then show "to_float 107374182425 = Finite 107374182400"
    by (simp add: to_float_def float_round_def round_half_even_def Let_def)
qed

text \<open>
  The count is a \<open>uint32_t\<close>: the sample after \<open>2^32 - 1\<close> samples brings it back to 0, and the
  average, divided by that 0, becomes \<open>+\<infinity>\<close>.
\<close>

lemma sample_count_wraps:
  "sample_count (stats wrapping_private) = 4294967295
   \<and> avg_value (stats wrapping_private) = Finite 25
   \<and> fresh (env_at 2000 (1 / 2) wrapping_private) wrapping_private
   \<and> map_option sample_count
        (result_stats (temperature_read (env_at 2000 (1 / 2) wrapping_private) (Some blank_data)))
       = Some 0
   \<and> map_option avg_value
        (result_stats (temperature_read (env_at 2000 (1 / 2) wrapping_private) (Some blank_data)))
       = Some PlusInfinity"
  by (simp add: wrapping_private_def sampled_private_def env_at_def result_stats_def read_defs
        float_eval float_of_uint32_max to_float_wrapping infinity_of_def)


lemma temperature_sensor_from_init:
  "temperature_sensor_init True (Some blank_sensor) (Some ''TEMP001'') (Some c) env =
     (True, Some temperature_sensor, env\<lparr>private_data := Some (after_init c)\<rparr>)"
  by (simp add: temperature_sensor_init_success temperature_sensor_def blank_sensor_def)







section \<open>Properties of the logger\<close>

declare logger_log.simps [simp del] logger_rotate_log_file.simps [simp del] show_nat.simps [simp del]

lemma tolower_eq_nul: "tolower c = CHR 0x00 \<longleftrightarrow> c = CHR 0x00"
proof (cases "map_of (zip ''ABCDEFGHIJKLMNOPQRSTUVWXYZ'' ''abcdefghijklmnopqrstuvwxyz'') c")
  case None
  then show ?thesis by (simp add: tolower_def)
next
  case (Some l)
  then have "(c, l) \<in> set (zip ''ABCDEFGHIJKLMNOPQRSTUVWXYZ'' ''abcdefghijklmnopqrstuvwxyz'')"
    by (rule map_of_SomeD)
  then have "c \<in> set ''ABCDEFGHIJKLMNOPQRSTUVWXYZ''" "l \<in> set ''abcdefghijklmnopqrstuvwxyz''"
    by (auto dest: set_zip_leftD set_zip_rightD)
  then have "c \<noteq> CHR 0x00" "l \<noteq> CHR 0x00" by auto
  then show ?thesis using Some by (simp add: tolower_def)
qed

lemma of_char_zero: "(of_char a :: nat) = 0 \<longleftrightarrow> a = CHR 0x00"
proof -
  have z: "(of_char (CHR 0x00) :: nat) = 0" by simp
  show ?thesis using of_char_eq_iff[of a "CHR 0x00", where ?'a = nat] unfolding z .
qed

lemma strcasecmp_zero_iff: "strcasecmp s t = 0 \<longleftrightarrow> fold_case s = fold_case t"
proof (induction s t rule: strcasecmp.induct)
  case 1
  then show ?case by (simp add: fold_case_def)
next
  case (2 b bs)
  then show ?case by (auto simp: fold_case_def of_char_zero tolower_eq_nul)
next
  case (3 a as)
  then show ?case by (auto simp: fold_case_def of_char_zero tolower_eq_nul)
next
  case (4 a as b bs)
  then show ?case
    using tolower_eq_nul[of a] tolower_eq_nul[of b]
    by (auto simp: fold_case_def)
qed

lemma level_indices: "[0..<length level_strings] = [0, 1, 2, 3, 4]"
  by (simp add: level_strings_def upt_rec)

lemma fold_case_levels:
  "fold_case ''DEBUG'' = ''debug''"
  "fold_case ''INFO'' = ''info''"
  "fold_case ''WARNING'' = ''warning''"
  "fold_case ''ERROR'' = ''error''"
  "fold_case ''CRITICAL'' = ''critical''"
  by (simp_all add: fold_case_def tolower_def)

lemma below_five: "l < 5 \<longleftrightarrow> l = 0 \<or> l = 1 \<or> l = 2 \<or> l = 3 \<or> l = (4::nat)"
  by arith

lemma string_to_level_match:
  assumes "l < 5" and "strcasecmp s (level_strings ! l) = 0"
  shows "logger_string_to_level (Some s) = l"
proof -
  have f: "fold_case s = fold_case (level_strings ! l)"
    using assms(2) by (simp add: strcasecmp_zero_iff)
  from assms(1) consider "l = 0" | "l = 1" | "l = 2" | "l = 3" | "l = 4"
    by (auto simp: below_five)
  then show ?thesis
  proof cases
    case 1
    then show ?thesis using f
      by (simp add: logger_string_to_level_def level_indices strcasecmp_zero_iff
            level_strings_def fold_case_levels)
  next
    case 2
    then show ?thesis using f
      by (simp add: logger_string_to_level_def level_indices strcasecmp_zero_iff
            level_strings_def fold_case_levels)
  next
    case 3
    then show ?thesis using f
      by (simp add: logger_string_to_level_def level_indices strcasecmp_zero_iff
            level_strings_def fold_case_levels)
  next
    case 4
    then show ?thesis using f
      by (simp add: logger_string_to_level_def level_indices strcasecmp_zero_iff
            level_strings_def fold_case_levels)
  next
    case 5
    then show ?thesis using f
      by (simp add: logger_string_to_level_def level_indices strcasecmp_zero_iff
            level_strings_def fold_case_levels)
  qed
qed

lemma strcasecmp_refl: "strcasecmp s s = 0"
  by (simp add: strcasecmp_zero_iff)

lemma string_to_level_no_match:
  assumes "\<forall>i<5. strcasecmp s (level_strings ! i) \<noteq> 0"
  shows "logger_string_to_level (Some s) = LOG_LEVEL_INFO"
  using assms
  by (simp add: logger_string_to_level_def level_indices)

lemma string_to_level_range: "logger_string_to_level x < 5"
proof (cases x)
  case None
  then show ?thesis by (simp add: logger_string_to_level_def LOG_LEVEL_INFO_def)
next
  case (Some s)
  show ?thesis
  proof (cases "find (\<lambda>i. strcasecmp s (level_strings ! i) = 0) [0..<length level_strings]")
    case None
    then show ?thesis using Some by (simp add: logger_string_to_level_def LOG_LEVEL_INFO_def)
  next
    case (Some i)
    then have "i \<in> set [0..<length level_strings]"
      by (auto simp: find_Some_iff)
    then have "i < 5" by (auto simp: level_strings_def)
    then show ?thesis using Some \<open>x = Some s\<close> by (simp add: logger_string_to_level_def)
  qed
qed

text \<open>
  Claim C10. \<open>logger_string_to_level\<close> always answers one of the five levels. It maps the
  name \<open>logger_level_to_string\<close> gives to each of the five levels back to that level, and so
  does it map every string that \<open>strcasecmp\<close> finds equal to that name (the match ignores
  case). For a null pointer, and for a string that matches none of the five names, it answers
  \<open>LOG_LEVEL_INFO\<close>.
\<close>

theorem level_string_round_trip:
  "(\<forall>l<5. logger_string_to_level (Some (logger_level_to_string l)) = l)
   \<and> (\<forall>l<5. \<forall>s. strcasecmp s (logger_level_to_string l) = 0
          \<longrightarrow> logger_string_to_level (Some s) = l)
   \<and> logger_string_to_level None = LOG_LEVEL_INFO
   \<and> (\<forall>s. (\<forall>i<5. strcasecmp s (level_strings ! i) \<noteq> 0)
          \<longrightarrow> logger_string_to_level (Some s) = LOG_LEVEL_INFO)
   \<and> (\<forall>x. logger_string_to_level x < 5)"
proof -
  have n: "\<And>l. l < 5 \<Longrightarrow> logger_level_to_string l = level_strings ! l"
    by (simp add: logger_level_to_string_def level_strings_def)
  show ?thesis
    using string_to_level_match strcasecmp_refl string_to_level_no_match string_to_level_range
    by (simp add: n logger_string_to_level_def)
qed

text \<open>
  Claim C10 at the level WARNING, the spelling \<open>Warning\<close> and the unknown name
  \<open>verbose\<close>.
\<close>

theorem level_string_round_trip_witness:
  "LOG_LEVEL_WARNING < 5
   \<and> logger_level_to_string LOG_LEVEL_WARNING = ''WARNING''
   \<and> logger_string_to_level (Some ''WARNING'') = LOG_LEVEL_WARNING
   \<and> strcasecmp ''Warning'' (logger_level_to_string LOG_LEVEL_WARNING) = 0
   \<and> logger_string_to_level (Some ''Warning'') = LOG_LEVEL_WARNING
   \<and> strcasecmp ''verbose'' (level_strings ! 0) \<noteq> 0
   \<and> strcasecmp ''verbose'' (level_strings ! 1) \<noteq> 0
   \<and> strcasecmp ''verbose'' (level_strings ! 2) \<noteq> 0
   \<and> strcasecmp ''verbose'' (level_strings ! 3) \<noteq> 0
   \<and> strcasecmp ''verbose'' (level_strings ! 4) \<noteq> 0
   \<and> logger_string_to_level (Some ''verbose'') = LOG_LEVEL_INFO"
proof -
  have a: "LOG_LEVEL_WARNING < 5" by (simp add: LOG_LEVEL_WARNING_def)
  have b: "logger_level_to_string LOG_LEVEL_WARNING = ''WARNING''"
    by (simp add: logger_level_to_string_def level_strings_def LOG_LEVEL_WARNING_def)
  have c: "strcasecmp ''Warning'' (logger_level_to_string LOG_LEVEL_WARNING) = 0"
    unfolding b by (simp add: tolower_def)
  have d: "strcasecmp ''verbose'' (level_strings ! 0) \<noteq> 0"
      "strcasecmp ''verbose'' (level_strings ! 1) \<noteq> 0"
      "strcasecmp ''verbose'' (level_strings ! 2) \<noteq> 0"
      "strcasecmp ''verbose'' (level_strings ! 3) \<noteq> 0"
      "strcasecmp ''verbose'' (level_strings ! 4) \<noteq> 0"
    by (simp_all add: level_strings_def tolower_def)
  have e: "\<forall>i<5. strcasecmp ''verbose'' (level_strings ! i) \<noteq> 0"
    using d by (auto simp: below_five)
  show ?thesis
    using level_string_round_trip a b c d e by (metis b)
qed

text \<open>
  Claim C8. If the logger is uninitialized, or the message is absent, or the level is below
  the configured minimum, \<open>logger_log\<close> returns false and leaves the whole world as it was:
  nothing is printed, no file changes, the private data is untouched. In every other case it
  does not return false, whatever the fuel.
\<close>

theorem logger_log_refuses:
  "(logger_private_data w = None \<or> message = None \<or> below_min_level w level
      \<longrightarrow> logger_log fuel level message w = Some (False, w))
   \<and> (\<not> (logger_private_data w = None \<or> message = None \<or> below_min_level w level)
      \<longrightarrow> (\<forall>w'. logger_log fuel level message w \<noteq> Some (False, w')))"
  by (auto simp: logger_log.simps below_min_level_def Let_def split: option.splits)

text \<open>
  Claim C8 at \<open>logger_log(LOG_LEVEL_DEBUG, "x")\<close> under the default configuration, whose
  minimum level is INFO: the call returns false and changes nothing; at level INFO it does
  not return false.
\<close>

theorem logger_log_refuses_witness:
  "below_min_level (running_logger default_config 0 Map.empty) LOG_LEVEL_DEBUG
   \<and> min_level default_config = LOG_LEVEL_INFO
   \<and> logger_log 1 LOG_LEVEL_DEBUG (Some ''x'') (running_logger default_config 0 Map.empty)
       = Some (False, running_logger default_config 0 Map.empty)
   \<and> \<not> below_min_level (running_logger default_config 0 Map.empty) LOG_LEVEL_INFO
   \<and> logger_log 1 LOG_LEVEL_INFO (Some ''x'') (running_logger default_config 0 Map.empty)
       \<noteq> Some (False, running_logger default_config 0 Map.empty)"
proof -
  have a: "below_min_level (running_logger default_config 0 Map.empty) LOG_LEVEL_DEBUG"
    by (simp add: below_min_level_def running_logger_def default_config_def
          LOG_LEVEL_DEBUG_def LOG_LEVEL_INFO_def)
  have b: "\<not> below_min_level (running_logger default_config 0 Map.empty) LOG_LEVEL_INFO"
    by (simp add: below_min_level_def running_logger_def default_config_def LOG_LEVEL_INFO_def)
  have c: "logger_private_data (running_logger default_config 0 Map.empty) \<noteq> None"
    by (simp add: running_logger_def)
  show ?thesis
    using logger_log_refuses[of "running_logger default_config 0 Map.empty" "Some ''x''"
            LOG_LEVEL_DEBUG 1]
          logger_log_refuses[of "running_logger default_config 0 Map.empty" "Some ''x''"
            LOG_LEVEL_INFO 1] a b c
    by (simp add: default_config_def)
qed

lemma below_ten:
  "d < 10 \<longleftrightarrow> d = 0 \<or> d = 1 \<or> d = 2 \<or> d = 3 \<or> d = 4 \<or> d = 5 \<or> d = 6 \<or> d = 7 \<or> d = 8 \<or> d = (9::nat)"
  by arith

lemma digit_char_code:
  assumes "d < 10"
  shows "(of_char (digit_char d) :: nat) = 48 + d"
proof -
  from assms have "d = 0 \<or> d = 1 \<or> d = 2 \<or> d = 3 \<or> d = 4 \<or> d = 5 \<or> d = 6 \<or> d = 7 \<or> d = 8 \<or> d = 9"
    by (simp only: below_ten)
  then consider "d = 0" | "d = 1" | "d = 2" | "d = 3" | "d = 4" | "d = 5" | "d = 6"
    | "d = 7" | "d = 8" | "d = 9"
    by blast
  then show ?thesis
    by cases (simp_all add: digit_char_def)
qed

lemma digit_char_inj:
  assumes "a < 10" and "b < 10" and "digit_char a = digit_char b"
  shows "a = b"
proof -
  have "48 + a = (of_char (digit_char a) :: nat)" using assms(1) by (simp only: digit_char_code)
  also have "\<dots> = (of_char (digit_char b) :: nat)" by (simp only: assms(3))
  also have "\<dots> = 48 + b" using assms(2) by (simp only: digit_char_code)
  finally show ?thesis by simp
qed

lemma show_nat_nonempty: "show_nat n \<noteq> []"
  by (subst show_nat.simps) simp

lemma show_nat_small: "n < 10 \<Longrightarrow> show_nat n = [digit_char n]"
  by (subst show_nat.simps) simp

lemma show_nat_large: "\<not> n < 10 \<Longrightarrow> show_nat n = show_nat (n div 10) @ [digit_char (n mod 10)]"
  by (subst show_nat.simps) simp

lemma show_nat_inj: "show_nat m = show_nat n \<Longrightarrow> m = n"
proof (induction m arbitrary: n rule: show_nat.induct)
  case (1 m)
  show ?case
  proof (cases "m < 10")
    case True
    show ?thesis
    proof (cases "n < 10")
      case True
      with \<open>m < 10\<close> 1(2) show ?thesis
        by (simp add: show_nat_small digit_char_inj)
    next
      case False
      with \<open>m < 10\<close> 1(2) show_nat_nonempty[of "n div 10"] show ?thesis
        by (simp add: show_nat_small show_nat_large)
    qed
  next
    case False
    show ?thesis
    proof (cases "n < 10")
      case True
      with \<open>\<not> m < 10\<close> 1(2) show_nat_nonempty[of "m div 10"] show ?thesis
        by (simp add: show_nat_small show_nat_large)
    next
      case n: False
      from 1(2) False n
      have e: "show_nat (m div 10) = show_nat (n div 10)"
        and d: "digit_char (m mod 10) = digit_char (n mod 10)"
        by (simp_all add: show_nat_large)
      from 1(1)[OF False e] have q: "m div 10 = n div 10" .
      from d have r: "m mod 10 = n mod 10" by (simp add: digit_char_inj)
      from q r show ?thesis by (metis div_mult_mod_eq)
    qed
  qed
qed

lemma length_show_nat: "0 < d \<Longrightarrow> n < 10 ^ d \<Longrightarrow> length (show_nat n) \<le> d"
proof (induction d arbitrary: n)
  case 0
  then show ?case by simp
next
  case (Suc d)
  show ?case
  proof (cases "n < 10")
    case True
    then show ?thesis by (simp add: show_nat_small)
  next
    case False
    then have "d \<noteq> 0" using Suc.prems by (cases d) auto
    moreover have "n div 10 < 10 ^ d" using Suc.prems by (simp add: less_mult_imp_div_less mult.commute)
    ultimately have "length (show_nat (n div 10)) \<le> d" using Suc.IH by simp
    then show ?thesis using False by (simp add: show_nat_large)
  qed
qed

lemma length_show_nat_mono: "k \<le> n \<Longrightarrow> length (show_nat k) \<le> length (show_nat n)"
proof (induction n arbitrary: k rule: show_nat.induct)
  case (1 n)
  show ?case
  proof (cases "n < 10")
    case True
    then have "k < 10" using 1(2) by simp
    then show ?thesis using True by (simp add: show_nat_small)
  next
    case False
    show ?thesis
    proof (cases "k < 10")
      case True
      then show ?thesis using False by (simp add: show_nat_small show_nat_large)
    next
      case k: False
      have "k div 10 \<le> n div 10" using 1(2) by (simp add: div_le_mono)
      from 1(1)[OF False this] show ?thesis using False k by (simp add: show_nat_large)
    qed
  qed
qed

lemma numbered_inj: "numbered path j = numbered path k \<Longrightarrow> j = k"
  using show_nat_inj[of j k] by (auto simp: numbered_def split: if_splits)

lemma rot_name_numbered:
  assumes "names_fit cfg" and "k < max 1 (rotation_steps cfg)"
  shows "rot_name (log_file cfg) k = numbered (log_file cfg) k"
proof (cases "k = 0")
  case True
  then show ?thesis using assms(1)
    by (simp add: rot_name_def numbered_def strncpy_n_def names_fit_def split: if_splits)
next
  case False
  then have s: "\<not> rotation_steps cfg \<le> 1" "k \<le> rotation_steps cfg - 1"
    using assms(2) by auto
  have "length (show_nat k) \<le> length (show_nat (rotation_steps cfg - 1))"
    by (rule length_show_nat_mono[OF s(2)])
  then have "length (log_file cfg) + 1 + length (show_nat k) \<le> 127"
    using assms(1) s(1) by (simp add: names_fit_def)
  then show ?thesis using False
    by (simp add: rot_name_def numbered_def snprintf_n_def)
qed

lemma rot_name_inj_on:
  assumes "names_fit cfg"
  shows "inj_on (rot_name (log_file cfg)) {..<max 1 (rotation_steps cfg)}"
proof (rule inj_onI)
  fix j k
  assume "j \<in> {..<max 1 (rotation_steps cfg)}" "k \<in> {..<max 1 (rotation_steps cfg)}"
    and e: "rot_name (log_file cfg) j = rot_name (log_file cfg) k"
  then have "numbered (log_file cfg) j = numbered (log_file cfg) k"
    using rot_name_numbered[OF assms] by simp
  then show "j = k" by (rule numbered_inj)
qed

lemma rotate_files_step:
  "rotate_files path maxf (Suc i) fs =
     rotate_files path maxf i
       (if (of_nat i :: uint32_t) = maxf - 1
        then remove_file (rot_name path i) fs
        else rename_file (rot_name path i) (rot_name path (Suc i)) fs)"
  by (simp add: rot_name_def Let_def)

declare rotate_files.simps(2) [simp del]

lemma rename_file_cases:
  assumes "old_name \<noteq> new_name" and "fs new_name = None"
  shows "rename_file old_name new_name fs old_name = None"
    and "rename_file old_name new_name fs new_name = fs old_name"
    and "x \<noteq> old_name \<Longrightarrow> x \<noteq> new_name \<Longrightarrow> rename_file old_name new_name fs x = fs x"
  using assms by (auto simp: rename_file_def split: option.splits)

lemma rename_loop:
  assumes "inj_on (rot_name path) {..j}"
    and "\<forall>i<j. (of_nat i :: uint32_t) \<noteq> maxf - 1"
    and "G (rot_name path j) = None"
  shows "(\<forall>k\<le>j. rotate_files path maxf j G (rot_name path k)
                 = (if k = 0 then None else G (rot_name path (k - 1))))
       \<and> (\<forall>x. x \<notin> rot_name path ` {..j} \<longrightarrow> rotate_files path maxf j G x = G x)"
  using assms
proof (induction j arbitrary: G)
  case 0
  then show ?case by simp
next
  case (Suc i)
  let ?G' = "rename_file (rot_name path i) (rot_name path (Suc i)) G"
  have distinct: "\<And>a b. a \<le> Suc i \<Longrightarrow> b \<le> Suc i \<Longrightarrow> rot_name path a = rot_name path b \<Longrightarrow> a = b"
    using Suc.prems(1) by (auto dest: inj_onD)
  have i: "inj_on (rot_name path) {..i}"
    by (rule inj_on_subset[OF Suc.prems(1)]) auto
  have ne: "rot_name path i \<noteq> rot_name path (Suc i)"
    using distinct[of i "Suc i"] by auto
  have step: "rotate_files path maxf (Suc i) G = rotate_files path maxf i ?G'"
    using Suc.prems(2) by (simp add: rotate_files_step)
  note rf = rename_file_cases[of "rot_name path i" "rot_name path (Suc i)" G, OF ne Suc.prems(3)]
  have notop: "\<forall>k<i. (of_nat k :: uint32_t) \<noteq> maxf - 1" using Suc.prems(2) by simp
  from Suc.IH[of ?G', OF i notop rf(1)]
  have ih1: "\<And>k. k \<le> i \<Longrightarrow> rotate_files path maxf i ?G' (rot_name path k)
                 = (if k = 0 then None else ?G' (rot_name path (k - 1)))"
    and ih2: "\<And>x. x \<notin> rot_name path ` {..i} \<Longrightarrow> rotate_files path maxf i ?G' x = ?G' x"
    by auto
  have a: "rotate_files path maxf (Suc i) G (rot_name path k)
             = (if k = 0 then None else G (rot_name path (k - 1)))" if "k \<le> Suc i" for k
  proof (cases "k = Suc i")
    case True
    have "rot_name path (Suc i) \<notin> rot_name path ` {..i}"
    proof
      assume "rot_name path (Suc i) \<in> rot_name path ` {..i}"
      then obtain b where b: "b \<le> i" "rot_name path (Suc i) = rot_name path b" by auto
      then have "Suc i = b" using distinct[of "Suc i" b] by simp
      then show False using b(1) by simp
    qed
    then show ?thesis using True ih2 rf(2) by (simp add: step)
  next
    case False
    then have k: "k \<le> i" using that by simp
    show ?thesis
    proof (cases "k = 0")
      case True
      then show ?thesis using ih1[OF k] by (simp add: step)
    next
      case False
      have ar: "k - 1 \<le> Suc i" "i \<le> Suc i" "Suc i \<le> Suc i" "k - 1 \<noteq> i" "k - 1 \<noteq> Suc i"
        using k False by auto
      have "rot_name path (k - 1) \<noteq> rot_name path i"
        using distinct[OF ar(1,2)] ar(4) by blast
      moreover have "rot_name path (k - 1) \<noteq> rot_name path (Suc i)"
        using distinct[OF ar(1,3)] ar(5) by blast
      ultimately show ?thesis using ih1[OF k] False rf(3) by (simp add: step)
    qed
  qed
  have b: "rotate_files path maxf (Suc i) G x = G x" if "x \<notin> rot_name path ` {..Suc i}" for x
  proof -
    have "x \<notin> rot_name path ` {..i}" "x \<noteq> rot_name path i" "x \<noteq> rot_name path (Suc i)"
      using that by auto
    then show ?thesis using ih2 rf(3) by (simp add: step)
  qed
  show ?case using a b by blast
qed

lemma loop_start:
  fixes w :: uint32_t
  assumes "0 \<le> sint w"
  shows "nat (sint w) = unat w" and "unat w < 2 ^ 31"
proof -
  have lt: "sint w < 2 ^ 31" using sint_lt[of w] by simp
  then have "sint w < 2 ^ 32" by simp
  then have "take_bit 32 (sint w) = sint w"
    using assms by (simp add: take_bit_int_eq_self)
  then have e: "uint w = sint w" using uint_sint[of w] by simp
  then show "nat (sint w) = unat w" by (simp add: unat_eq_nat_uint)
  show "unat w < 2 ^ 31" using e lt assms by (simp add: unat_eq_nat_uint)
qed

lemma below_top:
  fixes w :: uint32_t
  assumes "i < unat w"
  shows "(of_nat i :: uint32_t) \<noteq> w"
proof
  assume "(of_nat i :: uint32_t) = w"
  then have "unat (of_nat i :: uint32_t) = unat w" by simp
  moreover have "i < 2 ^ 32" using assms unsigned_less[of w, where 'a = nat] by simp
  ultimately show False using assms by (simp add: unat_of_nat)
qed

lemma full_loop:
  assumes "inj_on (rot_name path) {..unat (maxf - 1)}" and "0 \<le> sint (maxf - 1 :: uint32_t)"
  shows "(\<forall>k\<le>unat (maxf - 1).
            rotate_files path maxf (Suc (nat (sint (maxf - 1)))) F (rot_name path k)
              = (if k = 0 then None else F (rot_name path (k - 1))))
       \<and> (\<forall>x. x \<notin> rot_name path ` {..unat (maxf - 1)} \<longrightarrow>
            rotate_files path maxf (Suc (nat (sint (maxf - 1)))) F x = F x)"
proof -
  let ?top = "unat (maxf - 1)"
  let ?G = "remove_file (rot_name path ?top) F"
  note ls = loop_start[OF assms(2)]
  have step: "rotate_files path maxf (Suc (nat (sint (maxf - 1)))) F = rotate_files path maxf ?top ?G"
    unfolding ls(1) by (simp add: rotate_files_step)
  have notop: "\<forall>i<?top. (of_nat i :: uint32_t) \<noteq> maxf - 1"
    using below_top by blast
  have free: "?G (rot_name path ?top) = None" by (simp add: remove_file_def)
  from rename_loop[of path ?top maxf ?G, OF assms(1) notop free]
  have r1: "\<And>k. k \<le> ?top \<Longrightarrow> rotate_files path maxf ?top ?G (rot_name path k)
                 = (if k = 0 then None else ?G (rot_name path (k - 1)))"
    and r2: "\<And>x. x \<notin> rot_name path ` {..?top} \<Longrightarrow> rotate_files path maxf ?top ?G x = ?G x"
    by auto
  have a: "rotate_files path maxf ?top ?G (rot_name path k)
             = (if k = 0 then None else F (rot_name path (k - 1)))" if "k \<le> ?top" for k
  proof (cases "k = 0")
    case True
    then show ?thesis using r1[OF that] by simp
  next
    case False
    have "k - 1 \<le> ?top" "k - 1 \<noteq> ?top" using that False by auto
    then have "rot_name path (k - 1) \<noteq> rot_name path ?top"
      using inj_onD[OF assms(1), of "k - 1" ?top] by auto
    then show ?thesis using r1[OF that] False by (simp add: remove_file_def)
  qed
  have b: "rotate_files path maxf ?top ?G x = F x" if "x \<notin> rot_name path ` {..?top}" for x
  proof -
    have "x \<noteq> rot_name path ?top" using that by auto
    then show ?thesis using r2[OF that] by (simp add: remove_file_def)
  qed
  show ?thesis unfolding step using a b by blast
qed

lemma snprintf_512_length: "length (snprintf_n 512 t) \<le> 511"
  by (simp add: snprintf_n_def)

lemma format_message_length: "length (format_message cfg ts level m) \<le> 511"
  by (simp add: format_message_def snprintf_512_length)

lemma threshold_above_line:
  fixes kb :: uint32_t
  assumes "kb * 1024 \<noteq> 0" and "n \<le> 511"
  shows "\<not> kb * 1024 \<le> of_nat n + 1"
proof -
  have "unat (kb * 1024) = (unat kb * 1024) mod 2 ^ 32"
    by (simp add: unat_word_ariths)
  moreover have "(1024::nat) dvd 2 ^ 32" by simp
  ultimately have "1024 dvd unat (kb * 1024)"
    by (simp add: dvd_mod)
  moreover have "unat (kb * 1024) \<noteq> 0" using assms(1) by (simp add: unat_eq_0)
  ultimately have big: "1024 \<le> unat (kb * 1024)" by (auto dest: dvd_imp_le)
  have "(of_nat n + 1 :: uint32_t) = of_nat (Suc n)" by simp
  moreover have "unat (of_nat (Suc n) :: uint32_t) = Suc n"
    using assms(2) by (simp add: unat_of_nat del: of_nat_Suc)
  ultimately have "unat (of_nat n + 1 :: uint32_t) \<le> 512" using assms(2) by (simp add: add.commute)
  then show ?thesis using big by (simp add: word_le_nat_alt)
qed

lemma notice_call:
  assumes "logger_private_data w = Some p"
    and "open_log_file p = Some (log_file (logger_config p))"
    and "log_to_file (logger_config p)"
    and "current_file_size p = 0"
    and "max_file_size_kb (logger_config p) * 1024 \<noteq> 0
         \<or> LOG_LEVEL_INFO < min_level (logger_config p)"
  shows "logger_log k LOG_LEVEL_INFO (Some ''Log file rotated'') w =
           (if LOG_LEVEL_INFO < min_level (logger_config p) then Some (False, w)
            else Some (True,
               w\<lparr>console := (if log_to_console (logger_config p)
                               then console w @ [notice_line w (logger_config p)] else console w),
                 files := append_line (log_file (logger_config p))
                            (notice_line w (logger_config p)) (files w),
                 logger_private_data := Some (p\<lparr>current_file_size :=
                    of_nat (length (notice_line w (logger_config p))) + 1\<rparr>)\<rparr>))"
proof (cases "LOG_LEVEL_INFO < min_level (logger_config p)")
  case True
  then show ?thesis using assms(1)
    by (simp add: logger_log.simps[of k])
next
  case False
  then have "max_file_size_kb (logger_config p) * 1024 \<noteq> 0" using assms(5) by simp
  then have "\<not> max_file_size_kb (logger_config p) * 1024
            \<le> of_nat (length (notice_line w (logger_config p))) + 1"
    using threshold_above_line format_message_length
    by (simp add: notice_line_def)
  then show ?thesis using assms(1-4) False
    by (simp add: logger_log.simps[of k] notice_line_def Let_def)
qed

lemma rotate_call:
  assumes "logger_private_data w = Some p"
    and "open_log_file p = Some f"
    and "log_to_file (logger_config p)"
    and "max_file_size_kb (logger_config p) * 1024 \<noteq> 0
         \<or> LOG_LEVEL_INFO < min_level (logger_config p)"
    and "can_open w (log_file (logger_config p))"
  shows "\<exists>w'. logger_rotate_log_file (Suc k) w = Some w'
          \<and> logger_private_data w' =
              Some (p\<lparr>open_log_file := Some (log_file (logger_config p)),
                      current_file_size :=
                        (if LOG_LEVEL_INFO < min_level (logger_config p) then 0
                         else of_nat (length (notice_line w (logger_config p))) + 1)\<rparr>)
          \<and> files w' =
              (if LOG_LEVEL_INFO < min_level (logger_config p)
               then (rotated_files (logger_config p) (files w))(log_file (logger_config p) \<mapsto> [])
               else (rotated_files (logger_config p) (files w))
                      (log_file (logger_config p) \<mapsto> [notice_line w (logger_config p)]))
          \<and> console w' =
              (if log_to_console (logger_config p) \<and> \<not> LOG_LEVEL_INFO < min_level (logger_config p)
               then console w @ [notice_line w (logger_config p)] else console w)
          \<and> can_open w' = can_open w \<and> time_text w' = time_text w"
proof -
  let ?cfg = "logger_config p"
  let ?p3 = "p\<lparr>open_log_file := Some (log_file ?cfg), current_file_size := 0\<rparr>"
  let ?w3 = "w\<lparr>files := (rotated_files ?cfg (files w))(log_file ?cfg \<mapsto> []),
                logger_private_data := Some ?p3\<rparr>"
  have r: "logger_rotate_log_file (Suc k) w =
             map_option snd (logger_log k LOG_LEVEL_INFO (Some ''Log file rotated'') ?w3)"
    using assms(1,2,5)
    by (simp add: logger_rotate_log_file.simps[of "Suc k"] rotated_files_def Let_def)
  have n: "notice_line ?w3 ?cfg = notice_line w ?cfg" by (simp add: notice_line_def)
  have c: "logger_log k LOG_LEVEL_INFO (Some ''Log file rotated'') ?w3 =
           (if LOG_LEVEL_INFO < min_level ?cfg then Some (False, ?w3)
            else Some (True,
               ?w3\<lparr>console := (if log_to_console ?cfg
                               then console ?w3 @ [notice_line w ?cfg] else console ?w3),
                 files := append_line (log_file ?cfg) (notice_line w ?cfg) (files ?w3),
                 logger_private_data := Some (?p3\<lparr>current_file_size :=
                    of_nat (length (notice_line w ?cfg)) + 1\<rparr>)\<rparr>))"
    using notice_call[of ?w3 ?p3 k] assms(3,4) n by simp
  show ?thesis
    unfolding r c by (auto simp: append_line_def)
qed

lemma rotated_files_shift:
  assumes "names_fit cfg"
  shows "(\<forall>k<rotation_steps cfg.
            rotated_files cfg F (rot_name (log_file cfg) k)
              = (if k = 0 then None else F (rot_name (log_file cfg) (k - 1))))
       \<and> (\<forall>x. x \<notin> rot_name (log_file cfg) ` {..<rotation_steps cfg} \<longrightarrow>
            rotated_files cfg F x = F x)"
proof (cases "0 \<le> sint (max_files cfg - 1)")
  case True
  have s: "rotation_steps cfg = Suc (unat (max_files cfg - 1))"
    using True loop_start(1)[OF True] by (simp add: rotation_steps_def)
  have l: "{..<Suc (unat (max_files cfg - 1))} = {..unat (max_files cfg - 1)}"
    by auto
  have i: "inj_on (rot_name (log_file cfg)) {..unat (max_files cfg - 1)}"
    using rot_name_inj_on[OF assms] unfolding s l[symmetric] by simp
  show ?thesis
    using full_loop[OF i True, of F] True
    unfolding s l by (simp add: rotated_files_def less_Suc_eq_le)
next
  case False
  then show ?thesis by (simp add: rotated_files_def rotation_steps_def)
qed

lemma rotation_steps_bound: "rotation_steps cfg \<le> unat (max_files cfg)"
proof (cases "0 \<le> sint (max_files cfg - 1)")
  case True
  then have "max_files cfg \<noteq> 0" by auto
  then have "unat (max_files cfg - 1) = unat (max_files cfg) - 1"
    by (simp add: unat_minus_one)
  then show ?thesis using True loop_start(1)[OF True] \<open>max_files cfg \<noteq> 0\<close>
    by (simp add: rotation_steps_def unat_gt_0)
next
  case False
  then show ?thesis by (simp add: rotation_steps_def)
qed

text \<open>
  Claim C9, for a threshold that is not 0 and names that fit their buffers. Take a logger with
  an open stream and file logging on, and a message that passes the level gate and whose line
  brings the byte counter to \<open>max_file_size_kb * 1024\<close> or beyond. Let that threshold, computed
  in 32 bits, be non-zero, or INFO be below the minimum level (so that the rotation notice is
  not written); let the longest name the loop builds, \<open><path>.(max_files - 1)\<close>, fit its
  128-byte buffer, and let the base path be reopenable. Then \<open>logger_log\<close> returns true, and the
  world it leaves is the one produced by the completed write followed by one rotation: the
  stream is open on the base path, which is a fresh file that holds nothing but the rotation
  notice (or nothing, if INFO is below the minimum level), the size counter is back at 0 plus
  the notice, every \<open><path>.k\<close> with \<open>1 \<le> k < max_files\<close> holds what \<open><path>.(k-1)\<close> held after
  the write (the plain path for \<open>k = 1\<close>, so the line just written went to the old file before
  it was renamed), the previous \<open><path>.(max_files-1)\<close> is gone, and every other file is as the
  write left it. Consequently, if the log files that existed after the write were among
  \<open><path>, <path>.1, \<dots>, <path>.(max_files-1)\<close>, so are those that exist afterwards, and their
  number is at most \<open>max_files + 1\<close>. The loop runs \<open>max_files\<close> times with \<open>max_files - 1\<close> read
  as an \<open>int\<close>: not at all when that is negative.
\<close>

theorem rotation_on_threshold:
  fixes w :: logger_world and p :: LoggerPrivate and level :: LogLevel and m :: string
    and f :: string
  defines "cfg \<equiv> logger_config p"
  defines "path \<equiv> log_file (logger_config p)"
  defines "line \<equiv> format_message (logger_config p) (time_text w) level m"
  defines "written \<equiv> append_line f
                        (format_message (logger_config p) (time_text w) level m) (files w)"
  defines "names \<equiv> numbered (log_file (logger_config p))
                        ` {..<max 1 (rotation_steps (logger_config p))}"
  assumes priv: "logger_private_data w = Some p"
    and stream: "open_log_file p = Some f"
    and tofile: "log_to_file cfg"
    and passes: "\<not> level < min_level cfg"
    and reached: "max_file_size_kb cfg * 1024 \<le> current_file_size p + (of_nat (length line) + 1)"
    and threshold: "max_file_size_kb cfg * 1024 \<noteq> 0 \<or> LOG_LEVEL_INFO < min_level cfg"
    and reopen: "can_open w path"
    and fit: "names_fit cfg"
  shows "\<exists>w'. logger_log (Suc n) level (Some m) w = Some (True, w')
          \<and> logger_private_data w' =
               Some (p\<lparr>open_log_file := Some path,
                       current_file_size :=
                         (if LOG_LEVEL_INFO < min_level cfg then 0
                          else of_nat (length (notice_line w cfg)) + 1)\<rparr>)
          \<and> files w' path =
               Some (if LOG_LEVEL_INFO < min_level cfg then [] else [notice_line w cfg])
          \<and> (\<forall>k. 1 \<le> k \<and> k < rotation_steps cfg \<longrightarrow>
                 files w' (numbered path k) = written (numbered path (k - 1)))
          \<and> (\<forall>x. x \<notin> names \<longrightarrow> files w' x = written x)
          \<and> (log_files path written \<subseteq> names \<longrightarrow>
                 log_files path (files w') \<subseteq> names
               \<and> card (log_files path (files w')) \<le> unat (max_files cfg) + 1)"
proof -
  define p2 where "p2 = p\<lparr>current_file_size := current_file_size p + (of_nat (length line) + 1)\<rparr>"
  define w2 where "w2 = (if log_to_console cfg then w\<lparr>console := console w @ [line]\<rparr> else w)
                          \<lparr>files := written, logger_private_data := Some p2\<rparr>"
  have l: "logger_log (Suc n) level (Some m) w =
             map_option (Pair True) (logger_rotate_log_file (Suc n) w2)"
    using priv stream tofile passes reached
    by (simp add: logger_log.simps[of "Suc n"] cfg_def path_def line_def written_def Let_def
          w2_def p2_def)
  have h0: "logger_config p2 = cfg" by (simp add: p2_def cfg_def)
  have h1: "logger_private_data w2 = Some p2" by (simp add: w2_def)
  have h2: "open_log_file p2 = Some f" using stream by (simp add: p2_def)
  have h3: "log_to_file (logger_config p2)" using tofile by (simp add: h0)
  have h4: "max_file_size_kb (logger_config p2) * 1024 \<noteq> 0
            \<or> LOG_LEVEL_INFO < min_level (logger_config p2)"
    using threshold by (simp add: h0)
  have h5: "can_open w2 (log_file (logger_config p2))"
    using reopen by (simp add: h0 w2_def path_def cfg_def)
  have nl: "notice_line w2 cfg = notice_line w cfg" by (simp add: notice_line_def w2_def)
  have fw: "files w2 = written" by (simp add: w2_def)
  have lf: "log_file cfg = path" by (simp add: cfg_def path_def)
  from rotate_call[OF h1 h2 h3 h4 h5, of n]
  obtain w' where w': "logger_rotate_log_file (Suc n) w2 = Some w'"
    and pr: "logger_private_data w' =
              Some (p2\<lparr>open_log_file := Some path,
                      current_file_size :=
                        (if LOG_LEVEL_INFO < min_level cfg then 0
                         else of_nat (length (notice_line w cfg)) + 1)\<rparr>)"
    and fl: "files w' =
              (if LOG_LEVEL_INFO < min_level cfg
               then (rotated_files cfg written)(path \<mapsto> [])
               else (rotated_files cfg written)(path \<mapsto> [notice_line w cfg]))"
    unfolding h0 nl fw lf by blast
  have rn: "\<And>k. k < max 1 (rotation_steps cfg) \<Longrightarrow> rot_name path k = numbered path k"
    using rot_name_numbered[OF fit] by (simp add: lf)
  have n0: "numbered path 0 = path" by (simp add: numbered_def)
  have names_rot: "names = rot_name path ` {..<max 1 (rotation_steps cfg)}"
    unfolding names_def using rn by (simp add: cfg_def path_def)
  have path_in: "path \<in> names"
    unfolding names_def using n0 
    by (metis imageI lessThan_iff less_max_iff_disj zero_less_one path_def)
  note sh = rotated_files_shift[OF fit, of written, unfolded lf]
  have shift: "\<And>k. k < rotation_steps cfg \<Longrightarrow> rotated_files cfg written (rot_name path k)
              = (if k = 0 then None else written (rot_name path (k - 1)))"
    and keep: "\<And>x. x \<notin> rot_name path ` {..<rotation_steps cfg} \<Longrightarrow> rotated_files cfg written x = written x"
    using sh by blast+
  have A: "logger_log (Suc n) level (Some m) w = Some (True, w')"
    by (simp add: l w')
  have B: "logger_private_data w' =
               Some (p\<lparr>open_log_file := Some path,
                       current_file_size :=
                         (if LOG_LEVEL_INFO < min_level cfg then 0
                          else of_nat (length (notice_line w cfg)) + 1)\<rparr>)"
    using pr by (simp add: p2_def)
  have C: "files w' path =
               Some (if LOG_LEVEL_INFO < min_level cfg then [] else [notice_line w cfg])"
    by (simp add: fl)
  have D: "files w' (numbered path k) = written (numbered path (k - 1))"
    if "1 \<le> k \<and> k < rotation_steps cfg" for k
  proof -
    have k: "k < max 1 (rotation_steps cfg)" "k - 1 < max 1 (rotation_steps cfg)" "k \<noteq> 0"
      using that by auto
    have "numbered path k \<noteq> path"
      using numbered_inj[of path k 0] k(3) n0 by auto
    then have "files w' (numbered path k) = rotated_files cfg written (rot_name path k)"
      by (simp add: fl rn[OF k(1)])
    moreover have "rot_name path (k - 1) = numbered path (k - 1)" by (rule rn[OF k(2)])
    ultimately show ?thesis using shift[of k] that by simp
  qed
  have E: "files w' x = written x" if "x \<notin> names" for x
  proof -
    have "x \<noteq> path" using that path_in by auto
    moreover have "x \<notin> rot_name path ` {..<rotation_steps cfg}"
      using that unfolding names_rot by auto
    ultimately show ?thesis using keep[of x] by (simp add: fl)
  qed
  have F: "log_files path (files w') \<subseteq> names
            \<and> card (log_files path (files w')) \<le> unat (max_files cfg) + 1"
    if sub: "log_files path written \<subseteq> names"
  proof -
    have s: "log_files path (files w') \<subseteq> names"
    proof
      fix x assume x: "x \<in> log_files path (files w')"
      show "x \<in> names"
      proof (rule ccontr)
        assume nx: "x \<notin> names"
        then have "written x \<noteq> None" using E[OF nx] x by (simp add: log_files_def)
        then have "x \<in> log_files path written" using x by (simp add: log_files_def)
        then show False using sub nx by auto
      qed
    qed
    have "finite names" by (simp add: names_def)
    then have "card (log_files path (files w')) \<le> card names" using s by (simp add: card_mono)
    also have "\<dots> \<le> card {..<max 1 (rotation_steps cfg)}"
      unfolding names_def cfg_def by (rule card_image_le) simp
    also have "\<dots> \<le> unat (max_files cfg) + 1"
      using rotation_steps_bound[of cfg] by simp
    finally show ?thesis using s by simp
  qed
  show ?thesis using A B C D E F by blast
qed

lemma small_names:
  "numbered ''app.log'' 0 = ''app.log''"
  "numbered ''app.log'' 1 = ''app.log.1''"
  "numbered ''app.log'' (Suc 0) = ''app.log.1''"
  "numbered ''app.log'' 2 = ''app.log.2''"
  by (simp_all add: numbered_def show_nat.simps digit_char_def)

lemma small_steps: "rotation_steps small_config = 3"
  by (simp add: rotation_steps_def small_config_def)

lemma small_lines:
  "format_message small_config ts LOG_LEVEL_WARNING ''disk'' = ''[WARNING] disk''"
  "notice_line full_world small_config = ''[INFO] Log file rotated''"
  by (simp_all add: format_message_def notice_line_def small_config_def snprintf_n_def
        logger_level_to_string_def level_strings_def LOG_LEVEL_WARNING_def LOG_LEVEL_INFO_def)

lemma small_image:
  "numbered ''app.log'' ` {..<max 1 3} = {''app.log'', ''app.log.1'', ''app.log.2''}"
proof -
  have "{..<(3::nat)} = {0, 1, 2}" by auto
  then show ?thesis by (simp add: small_names)
qed

text \<open>
  Claim C9 at a concrete logger: \<open>max_file_size_kb = 1\<close>, \<open>max_files = 3\<close>, 1020 bytes
  counted, three log files present. One more line rotates them once.
\<close>

theorem rotation_on_threshold_witness:
  "logger_private_data full_world = Some full_private
   \<and> open_log_file full_private = Some ''app.log''
   \<and> log_to_file (logger_config full_private)
   \<and> \<not> LOG_LEVEL_WARNING < min_level (logger_config full_private)
   \<and> max_file_size_kb (logger_config full_private) * 1024
        \<le> current_file_size full_private
           + (of_nat (length (format_message (logger_config full_private) (time_text full_world)
                                 LOG_LEVEL_WARNING ''disk'')) + 1)
   \<and> max_file_size_kb (logger_config full_private) * 1024 \<noteq> 0
   \<and> can_open full_world (log_file (logger_config full_private))
   \<and> names_fit (logger_config full_private)
   \<and> log_files ''app.log'' (append_line ''app.log'' ''[WARNING] disk'' (files full_world))
        \<subseteq> {''app.log'', ''app.log.1'', ''app.log.2''}
   \<and> (\<exists>w'. logger_log 1 LOG_LEVEL_WARNING (Some ''disk'') full_world = Some (True, w')
          \<and> logger_private_data w' = Some (full_private\<lparr>current_file_size := 24\<rparr>)
          \<and> files w' ''app.log'' = Some [''[INFO] Log file rotated'']
          \<and> files w' ''app.log.1'' = Some [''old'', ''[WARNING] disk'']
          \<and> files w' ''app.log.2'' = Some [''older'']
          \<and> files w' ''app.log.3'' = None
          \<and> card (log_files ''app.log'' (files w')) \<le> 4)"
proof -
  have c: "logger_config full_private = small_config" by (simp add: full_private_def)
  have h1: "logger_private_data full_world = Some full_private" by (simp add: full_world_def)
  have h2: "open_log_file full_private = Some ''app.log''"
    by (simp add: full_private_def)
  have h3: "log_to_file (logger_config full_private)" by (simp add: c small_config_def)
  have h4: "\<not> LOG_LEVEL_WARNING < min_level (logger_config full_private)"
    by (simp add: c small_config_def LOG_LEVEL_WARNING_def LOG_LEVEL_INFO_def)
  have h5: "max_file_size_kb (logger_config full_private) * 1024
        \<le> current_file_size full_private
           + (of_nat (length (format_message (logger_config full_private) (time_text full_world)
                                 LOG_LEVEL_WARNING ''disk'')) + 1)"
    unfolding c small_lines by (simp add: small_config_def full_private_def)
  have h6: "max_file_size_kb (logger_config full_private) * 1024 \<noteq> 0"
    by (simp add: c small_config_def)
  have h7: "can_open full_world (log_file (logger_config full_private))"
    by (simp add: full_world_def)
  have h8: "names_fit (logger_config full_private)"
    unfolding c names_fit_def small_steps
    by (simp add: small_config_def show_nat.simps)
  have pth: "log_file small_config = ''app.log''" by (simp add: small_config_def)
  have pre: "log_files ''app.log'' (append_line ''app.log'' ''[WARNING] disk'' (files full_world))
               \<subseteq> {''app.log'', ''app.log.1'', ''app.log.2''}"
    by (auto simp: log_files_def append_line_def full_world_def split: if_splits)
  have lv: "\<not> LOG_LEVEL_INFO < min_level small_config" by (simp add: small_config_def)
  have mf: "unat (max_files small_config) + 1 = 4" by (simp add: small_config_def)
  have out: "''app.log.3'' \<notin> {''app.log'', ''app.log.1'', ''app.log.2''}" by simp
  have wr: "append_line ''app.log'' ''[WARNING] disk'' (files full_world) ''app.log''
              = Some [''old'', ''[WARNING] disk'']"
      "append_line ''app.log'' ''[WARNING] disk'' (files full_world) ''app.log.1'' = Some [''older'']"
      "append_line ''app.log'' ''[WARNING] disk'' (files full_world) ''app.log.3'' = None"
    by (simp_all add: append_line_def full_world_def)
  have fp: "full_private\<lparr>open_log_file := Some ''app.log'', current_file_size := 24\<rparr>
              = full_private\<lparr>current_file_size := 24\<rparr>"
    by (simp add: full_private_def)
  from rotation_on_threshold[OF h1 h2 h3 h4 h5 disjI1[OF h6] h7 h8, of 0,
         unfolded c pth small_steps small_image small_lines mf] lv
  obtain w' where r: "logger_log (Suc 0) LOG_LEVEL_WARNING (Some ''disk'') full_world = Some (True, w')"
    "logger_private_data w' = Some (full_private\<lparr>current_file_size := 24\<rparr>)"
    "files w' ''app.log'' = Some [''[INFO] Log file rotated'']"
    "\<forall>k. 1 \<le> k \<and> k < 3 \<longrightarrow>
        files w' (numbered ''app.log'' k)
          = append_line ''app.log'' ''[WARNING] disk'' (files full_world) (numbered ''app.log'' (k - 1))"
    "\<forall>x. x \<notin> {''app.log'', ''app.log.1'', ''app.log.2''} \<longrightarrow>
        files w' x = append_line ''app.log'' ''[WARNING] disk'' (files full_world) x"
    "log_files ''app.log'' (append_line ''app.log'' ''[WARNING] disk'' (files full_world))
         \<subseteq> {''app.log'', ''app.log.1'', ''app.log.2''} \<longrightarrow>
        card (log_files ''app.log'' (files w')) \<le> 4"
    by (auto simp: fp)
  have f1: "files w' ''app.log.1'' = Some [''old'', ''[WARNING] disk'']"
    using r(4)[rule_format, of 1] by (simp add: small_names wr)
  have f2: "files w' ''app.log.2'' = Some [''older'']"
    using r(4)[rule_format, of 2] by (simp add: small_names wr)
  have f3: "files w' ''app.log.3'' = None"
    using r(5)[rule_format, OF out] by (simp add: wr)
  have cd: "card (log_files ''app.log'' (files w')) \<le> 4" using r(6) pre by simp
  have one: "(1::nat) = Suc 0" by simp
  show ?thesis
    unfolding one using h1 h2 h3 h4 h5 h6 h7 h8 pre r(1,2,3) f1 f2 f3 cd by blast
qed

lemma long_names:
  "rot_name long_path 0 = long_path"
  "k \<noteq> 0 \<Longrightarrow> rot_name long_path k = long_path @ ''.''"
  by (simp_all add: rot_name_def strncpy_n_def snprintf_n_def long_path_def)

text \<open>
  The condition on the names is needed as well: a path of 126 bytes is cut off after the dot
  in every numbered name, and the loop moves the current file to \<open><path>.\<close>, not to
  \<open><path>.1\<close>, while \<open><path>.1\<close> stays where it was.
\<close>

lemma long_path_not_renamed:
  "length (log_file long_config) = 126
   \<and> \<not> names_fit long_config
   \<and> rotated_files long_config [long_path \<mapsto> [''new''], long_path @ ''.1'' \<mapsto> [''old'']]
       = [long_path @ ''.'' \<mapsto> [''new''], long_path @ ''.1'' \<mapsto> [''old'']]"
proof -
  let ?F = "[long_path \<mapsto> [''new''], long_path @ ''.1'' \<mapsto> [''old'']]"
  have s: "rotation_steps long_config = 3"
    by (simp add: rotation_steps_def long_config_def small_config_def)
  have n: "\<not> names_fit long_config"
    unfolding names_fit_def s
    by (simp add: long_config_def long_path_def show_nat.simps)
  have loop: "rotated_files long_config ?F =
      rename_file long_path (long_path @ ''.'')
        (rename_file (long_path @ ''.'') (long_path @ ''.'')
           (remove_file (long_path @ ''.'') ?F))"
    by (simp add: rotated_files_def long_config_def small_config_def numeral_3_eq_3
          rotate_files_step long_names)
  have "rotated_files long_config ?F
          = [long_path @ ''.'' \<mapsto> [''new''], long_path @ ''.1'' \<mapsto> [''old'']]"
    unfolding loop by (rule ext) (simp add: rename_file_def remove_file_def)
  then show ?thesis using n by (simp add: long_config_def long_path_def)
qed

lemma zero_threshold_loops:
  assumes "logger_private_data w = Some p"
    and "max_file_size_kb (logger_config p) * 1024 = 0"
    and "log_to_file (logger_config p)"
    and "open_log_file p \<noteq> None"
    and "\<not> LOG_LEVEL_INFO < min_level (logger_config p)"
    and "\<not> level < min_level (logger_config p)"
    and "can_open w (log_file (logger_config p))"
  shows "logger_log n level (Some m) w = None"
  using assms
proof (induction n arbitrary: w p level m)
  case 0
  then show ?case
    by (auto simp: logger_log.simps[of 0] logger_rotate_log_file.simps[of 0] Let_def)
next
  case (Suc n)
  obtain f where f: "open_log_file p = Some f" using Suc.prems(4) by auto
  let ?cfg = "logger_config p"
  let ?line = "format_message ?cfg (time_text w) level m"
  let ?w1 = "if log_to_console ?cfg then w\<lparr>console := console w @ [?line]\<rparr> else w"
  let ?p2 = "p\<lparr>current_file_size := current_file_size p + (of_nat (length ?line) + 1)\<rparr>"
  let ?w2 = "?w1\<lparr>files := append_line f ?line (files ?w1), logger_private_data := Some ?p2\<rparr>"
  let ?p3 = "?p2\<lparr>open_log_file := None\<rparr>\<lparr>open_log_file := Some (log_file ?cfg), current_file_size := 0\<rparr>"
  let ?w3 = "?w2\<lparr>files := (rotated_files ?cfg (files ?w2))(log_file ?cfg \<mapsto> []),
               logger_private_data := Some ?p3\<rparr>"
  have l: "logger_log (Suc n) level (Some m) w =
             map_option (Pair True) (logger_rotate_log_file (Suc n) ?w2)"
    using Suc.prems(1,2,3,6) f
    by (simp add: logger_log.simps[of "Suc n"] Let_def)
  have r: "logger_rotate_log_file (Suc n) ?w2 =
             map_option snd (logger_log n LOG_LEVEL_INFO (Some ''Log file rotated'') ?w3)"
    using Suc.prems(7) f
    by (simp add: logger_rotate_log_file.simps[of "Suc n"] rotated_files_def Let_def)
  have "logger_log n LOG_LEVEL_INFO (Some ''Log file rotated'') ?w3 = None"
    using Suc.prems(2,3,5,7) by (intro Suc.IH[of ?w3 ?p3]) simp_all
  then show ?case by (simp add: l r)
qed

text \<open>
  Claim C9 does not hold for every configuration the logger accepts: no function of logger.c
  checks \<open>max_file_size_kb\<close>. With \<open>max_file_size_kb = 0\<close> every write, the rotation notice
  included, reaches the threshold \<open>0 * 1024\<close>; the rotation that follows the first write logs
  its notice, which is followed by a rotation that logs its notice, and so on: instead of
  exactly one rotation there is no last one, and \<open>logger_log\<close> does not return, whatever the
  bound on the nesting of the calls. The same call under the default configuration, which
  differs in \<open>max_file_size_kb = 1024\<close> only, returns true.
\<close>

theorem zero_threshold_never_returns:
  "max_file_size_kb zero_config * 1024
      \<le> 0 + (of_nat (length (format_message zero_config ''2025-01-01 12:00:00''
                                LOG_LEVEL_INFO ''x'')) + 1)
   \<and> logger_private_data (running_logger zero_config 0 Map.empty)
       = Some \<lparr>logger_config = zero_config, open_log_file = Some ''logs/edgetrack.log'',
                current_file_size = 0, file_count = 0\<rparr>
   \<and> log_to_file zero_config
   \<and> \<not> LOG_LEVEL_INFO < min_level zero_config
   \<and> can_open (running_logger zero_config 0 Map.empty) (log_file zero_config)
   \<and> names_fit zero_config
   \<and> (\<forall>n. logger_log n LOG_LEVEL_INFO (Some ''x'') (running_logger zero_config 0 Map.empty)
           = None)
   \<and> (\<exists>w'. logger_log 0 LOG_LEVEL_INFO (Some ''x'') (running_logger default_config 0 Map.empty)
           = Some (True, w'))"
proof -
  have z: "max_file_size_kb zero_config * 1024 = 0"
    by (simp add: zero_config_def)
  have s: "rotation_steps zero_config = 5"
    by (simp add: rotation_steps_def zero_config_def default_config_def)
  have "names_fit zero_config"
    unfolding names_fit_def s
    by (simp add: zero_config_def default_config_def show_nat.simps)
  moreover have "logger_log n LOG_LEVEL_INFO (Some ''x'') (running_logger zero_config 0 Map.empty)
                   = None" for n
    by (rule zero_threshold_loops[where p = "\<lparr>logger_config = zero_config,
            open_log_file = Some (log_file zero_config), current_file_size = 0, file_count = 0\<rparr>"])
       (simp_all add: running_logger_def zero_config_def default_config_def)
  moreover have "\<exists>w'. logger_log 0 LOG_LEVEL_INFO (Some ''x'')
                       (running_logger default_config 0 Map.empty) = Some (True, w')"
    by (simp add: logger_log.simps[of 0] running_logger_def default_config_def Let_def
          format_message_def snprintf_n_def logger_level_to_string_def level_strings_def
          LOG_LEVEL_INFO_def)
  ultimately show ?thesis
    unfolding z by (simp add: running_logger_def zero_config_def default_config_def)
qed

end
